theory Spec2Isabelle
  imports Complex_Main
begin

section \<open>Go primitives used by the downloader\<close>

text \<open>
  Go's \<^verbatim>\<open>int\<close> and \<^verbatim>\<open>int64\<close> are 64-bit two's-complement integers on the
  platforms the tool is built for. They are modelled as \<open>int\<close>, and every arithmetic
  operation of the source that can leave the range is followed by \<open>wrap64\<close>.
\<close>

definition wrap64 :: "int \<Rightarrow> int" where
  "wrap64 x = (x + 2 ^ 63) mod 2 ^ 64 - 2 ^ 63"

definition in_int64 :: "int \<Rightarrow> bool" where
  "in_int64 x = (- (2 ^ 63) \<le> x \<and> x < 2 ^ 63)"

text \<open>
  \<^verbatim>\<open>strings.LastIndex(s, substr)\<close>: the byte index of the last occurrence of
  \<open>substr\<close> in \<open>s\<close>, or \<open>-1\<close>. The search runs from the last position at which
  \<open>substr\<close> still fits down to position 0.
\<close>

fun last_index_upto :: "string \<Rightarrow> string \<Rightarrow> nat \<Rightarrow> int" where
  "last_index_upto s sep 0 = (if take (length sep) s = sep then 0 else -1)"
| "last_index_upto s sep (Suc i) =
     (if take (length sep) (drop (Suc i) s) = sep then int (Suc i)
      else last_index_upto s sep i)"

definition LastIndex :: "string \<Rightarrow> string \<Rightarrow> int" where
  "LastIndex s sep =
     (if length s < length sep then -1
      else last_index_upto s sep (length s - length sep))"

text \<open>\<^verbatim>\<open>strings.TrimSuffix(s, suffix)\<close>.\<close>

definition TrimSuffix :: "string \<Rightarrow> string \<Rightarrow> string" where
  "TrimSuffix s suffix =
     (if length suffix \<le> length s \<and> drop (length s - length suffix) s = suffix
      then take (length s - length suffix) s else s)"

text \<open>
  \<^verbatim>\<open>strconv.ParseInt(s, 10, 64)\<close>: an optional sign, then at least one decimal digit
  and nothing else; a value outside the 64-bit range is an error. \<open>None\<close> is the
  error result.
\<close>

definition is_digit :: "char \<Rightarrow> bool" where
  "is_digit c = (48 \<le> (of_char c :: nat) \<and> (of_char c :: nat) \<le> 57)"

fun digits_value :: "int \<Rightarrow> string \<Rightarrow> int option" where
  "digits_value acc [] = Some acc"
| "digits_value acc (c # cs) =
     (if is_digit c then digits_value (10 * acc + (of_char c - 48)) cs else None)"

definition ParseInt :: "string \<Rightarrow> int option" where
  "ParseInt s =
     (case s of
        [] \<Rightarrow> None
      | c # cs \<Rightarrow>
          (let neg = (c = CHR ''-'');
               ds = (if c = CHR ''+'' \<or> c = CHR ''-'' then cs else s)
           in if ds = [] then None
              else (case digits_value 0 ds of
                      None \<Rightarrow> None
                    | Some n \<Rightarrow>
                        (let v = (if neg then - n else n)
                         in if in_int64 v then Some v else None))))"

text \<open>
  The regular expression \<^verbatim>\<open>filename="([^"]+)"\<close> of \<open>getFileInfo\<close>, applied with
  \<^verbatim>\<open>FindStringSubmatch\<close>: the leftmost position at which the literal
  \<^verbatim>\<open>filename="\<close> is followed by one or more characters other than the double quote
  and then a double quote. The result is the first capture group. The double quote is
  the character with code 34 (hexadecimal 22).
\<close>

definition dquote :: char where
  "dquote = CHR 0x22"

definition filename_match_here :: "string \<Rightarrow> string option" where
  "filename_match_here s =
     (let lit = ''filename='' @ [dquote] in
      if take (length lit) s = lit then
        (let rest = drop (length lit) s;
             name = takeWhile (\<lambda>c. c \<noteq> dquote) rest
         in if name \<noteq> [] \<and> length name < length rest then Some name else None)
      else None)"

fun FindFilenameSubmatch :: "string \<Rightarrow> string option" where
  "FindFilenameSubmatch [] = None"
| "FindFilenameSubmatch (c # cs) =
     (case filename_match_here (c # cs) of
        Some name \<Rightarrow> Some name
      | None \<Rightarrow> FindFilenameSubmatch cs)"

section \<open>Package files: the MIME table\<close>

definition MimeToExt_entries :: "(string \<times> string) list" where
  "MimeToExt_entries =
    [(''image/jpeg'', ''jpg''),
     (''image/png'', ''png''),
     (''image/gif'', ''gif''),
     (''image/webp'', ''webp''),
     (''image/bmp'', ''bmp''),
     (''image/svg+xml'', ''svg''),
     (''image/tiff'', ''tiff''),
     (''image/vnd.microsoft.icon'', ''ico''),
     (''audio/mpeg'', ''mp3''),
     (''audio/wav'', ''wav''),
     (''audio/ogg'', ''ogg''),
     (''audio/webm'', ''webm''),
     (''audio/flac'', ''flac''),
     (''video/mp4'', ''mp4''),
     (''video/x-m4v'', ''m4v''),
     (''video/webm'', ''webm''),
     (''video/ogg'', ''ogv''),
     (''video/x-msvideo'', ''avi''),
     (''video/mpeg'', ''mpeg''),
     (''application/pdf'', ''pdf''),
     (''application/msword'', ''doc''),
     (''application/vnd.openxmlformats-officedocument.wordprocessingml.document'', ''docx''),
     (''application/vnd.ms-excel'', ''xls''),
     (''application/vnd.openxmlformats-officedocument.spreadsheetml.sheet'', ''xlsx''),
     (''application/vnd.ms-powerpoint'', ''ppt''),
     (''application/vnd.openxmlformats-officedocument.presentationml.presentation'', ''pptx''),
     (''text/plain'', ''txt''),
     (''text/html'', ''html''),
     (''text/css'', ''css''),
     (''text/javascript'', ''js''),
     (''application/json'', ''json''),
     (''application/xml'', ''xml''),
     (''application/x-yaml'', ''yaml''),
     (''application/x-sh'', ''sh''),
     (''application/x-httpd-php'', ''php''),
     (''application/zip'', ''zip''),
     (''application/x-rar-compressed'', ''rar''),
     (''application/x-7z-compressed'', ''7z''),
     (''application/gzip'', ''gz''),
     (''application/x-tar'', ''tar''),
     (''application/java-archive'', ''jar''),
     (''application/x-msdownload'', ''exe''),
     (''application/x-iso9660-image'', ''iso'')]"

text \<open>The Go map literal: a lookup by key (a Go map literal has no repeated key).\<close>

definition MimeToExt :: "string \<rightharpoonup> string" where
  "MimeToExt = map_of MimeToExt_entries"

definition GetFileExtension :: "string \<Rightarrow> string" where
  "GetFileExtension mimeType =
     (case MimeToExt mimeType of Some ext \<Rightarrow> ext | None \<Rightarrow> ''bin'')"

section \<open>Package cmd: data model\<close>

text \<open>
  \<open>Data\<close> is a byte slice: \<open>None\<close> is the nil slice, \<open>Some []\<close> an empty slice that
  is not nil (the source tests both \<^verbatim>\<open>c.Data != nil\<close> and \<^verbatim>\<open>len(c.Data) == 0\<close>).
\<close>

record Chunk =
  Data :: "string option"
  Start :: int
  End :: int
  Index :: int

record FileMetadata =
  URL :: string
  MissedChunks :: "Chunk list"
  TotalSize :: int
  DownloadedSize :: int

text \<open>
  An open \<^verbatim>\<open>*os.File\<close>: the path it was opened at and its write cursor. The bytes
  live in the file system (below), so that a positioned write and a later read of the
  same path see each other.
\<close>

record os_file =
  fname :: string
  cursor :: nat

text \<open>
  \<open>ChunkSize\<close> is a \<^verbatim>\<open>float64\<close> in the source. The only value ever stored in it is
  \<^verbatim>\<open>float64(ChunkSizeMB) * (1 << 20)\<close>, a whole number of bytes, so the field is an
  \<open>int\<close> here and \<^verbatim>\<open>int(chunkSize)\<close> is the identity.
\<close>

record FileInfo =
  File :: "os_file option"
  Metadata :: FileMetadata
  Name :: string
  Ext :: string
  Size :: int
  ChunkSize :: int
  AcceptsRanges :: bool

datatype error =
    ErrRangeNotSupported
  | ErrCreateRequest
  | ErrRequest
  | ErrServerStatus int
  | ErrConnect
  | ErrChunkStatus int
  | ErrRead
  | ErrNoData
  | ErrWrite
  | ErrStat
  | ErrCreate

definition splitLastDot :: "string \<Rightarrow> string \<times> string" where
  "splitLastDot s =
     (let index = LastIndex s ''.'' in
      if index = -1 then (s, '''')
      else (take (nat index) s, drop (nat (index + 1)) s))"

section \<open>The capability probe\<close>

text \<open>
  What the probe reads of an HTTP response: the status code and the four header values
  as \<^verbatim>\<open>Header.Get\<close> returns them (the empty string for an absent header).
\<close>

record response =
  StatusCode :: int
  ContentDisposition :: string
  ContentType :: string
  ContentLength :: string
  AcceptRanges :: string

text \<open>
  The outcome of one request of the probe. \<open>RequestNotCreated\<close> is an error of
  \<^verbatim>\<open>http.NewRequest\<close>, \<open>ClientFailed\<close> an error of the client (no response).
\<close>

datatype request_outcome = RequestNotCreated | ClientFailed | Responded response

definition initial_FileInfo :: "string \<Rightarrow> FileInfo" where
  "initial_FileInfo url =
     \<lparr>File = None,
      Metadata = \<lparr>URL = url, MissedChunks = [], TotalSize = 0, DownloadedSize = 0\<rparr>,
      Name = ''download'', Ext = '''', Size = 0, ChunkSize = 0, AcceptsRanges = True\<rparr>"

text \<open>
  The response \<open>getFileInfo\<close> goes on with: the one to HEAD when HEAD gave status 200,
  otherwise the one to the GET that replaces it; \<open>Inl\<close> is the error returned when
  that GET cannot be made.
\<close>

definition probe_response :: "request_outcome \<Rightarrow> request_outcome \<Rightarrow> error + response" where
  "probe_response hres gres =
     (let fallback =
        (case gres of
           RequestNotCreated \<Rightarrow> Inl ErrCreateRequest
         | ClientFailed \<Rightarrow> Inl ErrRequest
         | Responded r \<Rightarrow> Inr r)
      in case hres of
           Responded r \<Rightarrow> if StatusCode r = 200 then Inr r else fallback
         | _ \<Rightarrow> fallback)"

definition fill_FileInfo :: "FileInfo \<Rightarrow> response \<Rightarrow> FileInfo" where
  "fill_FileInfo f r =
     (let f1 = (case FindFilenameSubmatch (ContentDisposition r) of
                  Some filename \<Rightarrow> f\<lparr>Name := fst (splitLastDot filename)\<rparr>
                | None \<Rightarrow> f);
          f2 = (if ContentType r \<noteq> '''' then f1\<lparr>Ext := GetFileExtension (ContentType r)\<rparr>
                else f1)
      in case ParseInt (ContentLength r) of
           Some s \<Rightarrow> f2\<lparr>Size := s, Metadata := (Metadata f2)\<lparr>TotalSize := s\<rparr>\<rparr>
         | None \<Rightarrow> f2)"

definition getFileInfo ::
  "string \<Rightarrow> request_outcome \<Rightarrow> request_outcome \<Rightarrow> FileInfo option \<times> error option" where
  "getFileInfo url hres gres =
     (case probe_response hres gres of
        Inl e \<Rightarrow> (None, Some e)
      | Inr r \<Rightarrow>
          if StatusCode r \<ge> 400 then (None, Some (ErrServerStatus (StatusCode r)))
          else (let f = fill_FileInfo (initial_FileInfo url) r
                in if AcceptRanges r \<noteq> ''bytes''
                   then (Some (f\<lparr>AcceptsRanges := False\<rparr>), Some ErrRangeNotSupported)
                   else (Some f, None)))"

section \<open>The environment of a run\<close>

text \<open>
  The network and the operating system are inputs of the model. A transfer either
  never produced a response (\<open>NoRequest\<close>: the request could not be built;
  \<open>NoResponse\<close>: the client returned an error) or gave a status code, the bytes that
  were read from the body and whether reading the body ended with an error.
\<close>

datatype body_outcome = NoRequest | NoResponse | Body int string bool

datatype write_outcome = WriteOk | WriteFails | StatFails

record world =
  head_result :: request_outcome
  get_result :: request_outcome
  creatable :: "string \<Rightarrow> bool"
  stream_result :: "nat \<Rightarrow> body_outcome"
  range_result :: "int \<Rightarrow> nat \<Rightarrow> body_outcome"
  write_result :: "int \<Rightarrow> write_outcome"
  numCPU :: int

text \<open>
  What a call can end with besides returning: \<^verbatim>\<open>log.Fatal\<close> (the process exits with
  status 1), a run-time panic, or a value the Go specification leaves to the
  implementation.
\<close>

datatype exit = Fatal string | GoPanic string | Unspecified

text \<open>The observable steps of a run: requests sent and pauses taken, in order.\<close>

datatype event =
    EvStreamGet
  | EvRangeGet int int int
  | EvSleep nat

section \<open>JSON documents and the encoder of encoding/json\<close>

text \<open>
  The metadata side file is written by \<^verbatim>\<open>json.NewEncoder(file).Encode(d)\<close>. The model
  works on JSON documents rather than on their text: a file holding a JSON text is
  represented by the document the text denotes. \<open>JInt\<close> is a number literal in plain
  integer notation, \<open>JOtherNumber\<close> any other number literal.
\<close>

datatype json =
    JNull
  | JBool bool
  | JInt int
  | JOtherNumber string
  | JString string
  | JArray "json list"
  | JObject "(string \<times> json) list"

text \<open>
  The encoder writes a Go string as a JSON string coerced to valid UTF-8: every byte
  that does not start a well-formed sequence is replaced by the replacement rune.
  \<open>utf8_len s\<close> is the length of the well-formed UTF-8 sequence \<open>s\<close> starts with, or
  0 when it starts with none; the ranges are those of \<^verbatim>\<open>utf8.DecodeRuneInString\<close>.
\<close>

definition byte_in :: "string \<Rightarrow> nat \<Rightarrow> nat \<Rightarrow> nat \<Rightarrow> bool" where
  "byte_in s i lo hi =
     (i < length s \<and> lo \<le> (of_char (s ! i) :: nat) \<and> (of_char (s ! i) :: nat) \<le> hi)"

definition utf8_len :: "string \<Rightarrow> nat" where
  "utf8_len s =
     (if byte_in s 0 0 127 then 1
      else if byte_in s 0 194 223 \<and> byte_in s 1 128 191 then 2
      else if byte_in s 0 224 224 \<and> byte_in s 1 160 191 \<and> byte_in s 2 128 191 then 3
      else if byte_in s 0 225 236 \<and> byte_in s 1 128 191 \<and> byte_in s 2 128 191 then 3
      else if byte_in s 0 237 237 \<and> byte_in s 1 128 159 \<and> byte_in s 2 128 191 then 3
      else if byte_in s 0 238 239 \<and> byte_in s 1 128 191 \<and> byte_in s 2 128 191 then 3
      else if byte_in s 0 240 240 \<and> byte_in s 1 144 191 \<and> byte_in s 2 128 191
              \<and> byte_in s 3 128 191 then 4
      else if byte_in s 0 241 243 \<and> byte_in s 1 128 191 \<and> byte_in s 2 128 191
              \<and> byte_in s 3 128 191 then 4
      else if byte_in s 0 244 244 \<and> byte_in s 1 128 143 \<and> byte_in s 2 128 191
              \<and> byte_in s 3 128 191 then 4
      else 0)"

text \<open>The replacement rune U+FFFD in UTF-8: the bytes EF BF BD.\<close>

definition replacement_rune :: string where
  "replacement_rune = [CHR 0xEF, CHR 0xBF, CHR 0xBD]"

function toValidUTF8 :: "string \<Rightarrow> string" where
  "toValidUTF8 s =
     (if s = [] then []
      else if utf8_len s = 0 then replacement_rune @ toValidUTF8 (tl s)
      else take (utf8_len s) s @ toValidUTF8 (drop (utf8_len s) s))"
  by pat_completeness auto
termination
  by (relation "measure length") auto

text \<open>\<^verbatim>\<open>utf8.ValidString\<close>.\<close>

function ValidString :: "string \<Rightarrow> bool" where
  "ValidString s =
     (if s = [] then True
      else if utf8_len s = 0 then False
      else ValidString (drop (utf8_len s) s))"
  by pat_completeness auto
termination
  by (relation "measure length") auto

text \<open>
  A byte slice is written as a base64 string (\<^verbatim>\<open>base64.StdEncoding\<close>, with padding),
  a nil slice as \<open>null\<close>.
\<close>

definition b64_alphabet :: string where
  "b64_alphabet = ''ABCDEFGHIJKLMNOPQRSTUVWXYZabcdefghijklmnopqrstuvwxyz0123456789+/''"

definition b64_char :: "nat \<Rightarrow> char" where
  "b64_char d = b64_alphabet ! (d mod 64)"

fun b64encode :: "string \<Rightarrow> string" where
  "b64encode [] = []"
| "b64encode [a] =
     (let x = (of_char a :: nat)
      in [b64_char (x div 4), b64_char ((x mod 4) * 16), CHR ''='', CHR ''=''])"
| "b64encode [a, b] =
     (let n = (of_char a :: nat) * 256 + of_char b
      in [b64_char (n div 1024), b64_char (n div 16), b64_char ((n mod 16) * 4), CHR ''=''])"
| "b64encode (a # b # c # rest) =
     (let n = (of_char a :: nat) * 65536 + of_char b * 256 + of_char c
      in [b64_char (n div 262144), b64_char (n div 4096), b64_char (n div 64), b64_char n]
         @ b64encode rest)"

definition marshal_Chunk :: "Chunk \<Rightarrow> json" where
  "marshal_Chunk c =
     JObject
       [(''Data'', (case Data c of None \<Rightarrow> JNull | Some d \<Rightarrow> JString (b64encode d))),
        (''Start'', JInt (Start c)),
        (''End'', JInt (End c)),
        (''Index'', JInt (Index c))]"

text \<open>
  The keys are the struct tags of \<open>FileMetadata\<close>, in the order of the fields. The
  list of missed chunks is never nil in the program (\<open>getFileInfo\<close> starts it as an
  empty slice), so it is written as an array.
\<close>

definition marshal_FileMetadata :: "FileMetadata \<Rightarrow> json" where
  "marshal_FileMetadata d =
     JObject
       [(''url'', JString (toValidUTF8 (URL d))),
        (''missed_chunks'', JArray (map marshal_Chunk (MissedChunks d))),
        (''total_size'', JInt (TotalSize d)),
        (''downloaded_size'', JInt (DownloadedSize d))]"

section \<open>The file system\<close>

text \<open>
  A file holds raw bytes or, when its bytes are a JSON text, the document they denote.
\<close>

datatype file_data = Bytes string | Document json

type_synonym filesystem = "string \<rightharpoonup> file_data"

text \<open>The state of the process: the transfer descriptor, the files and the steps so far.\<close>

record proc =
  info :: FileInfo
  files :: filesystem
  trace :: "event list"

text \<open>
  A positioned write: the bytes \<open>d\<close> at offset \<open>off\<close>; a write past the end of the
  file fills the gap with zero bytes, and a write of no bytes changes nothing.
\<close>

definition write_at :: "string \<Rightarrow> nat \<Rightarrow> string \<Rightarrow> string" where
  "write_at old off d =
     (if d = [] then old
      else take off (old @ replicate (off - length old) (CHR 0x00)) @ d
             @ drop (off + length d) old)"

definition file_bytes :: "filesystem \<Rightarrow> string \<Rightarrow> string" where
  "file_bytes fs p = (case fs p of Some (Bytes b) \<Rightarrow> b | _ \<Rightarrow> [])"

definition GetFullPath :: "FileInfo \<Rightarrow> string \<Rightarrow> string" where
  "GetFullPath f outDir =
     (if Ext f \<noteq> '''' then TrimSuffix outDir ''/'' @ ''/'' @ Name f @ ''.'' @ Ext f
      else TrimSuffix outDir ''/'' @ ''/'' @ Name f)"

definition CreateFile :: "world \<Rightarrow> proc \<Rightarrow> string \<Rightarrow> error option \<times> proc" where
  "CreateFile w st outDir =
     (let p = GetFullPath (info st) outDir in
      if creatable w p
      then (None, st\<lparr>info := (info st)\<lparr>File := Some \<lparr>fname = p, cursor = 0\<rparr>\<rparr>,
                      files := (files st)(p \<mapsto> Bytes [])\<rparr>)
      else (Some ErrCreate, st))"

text \<open>
  \<open>SaveMetaData\<close>: \<^verbatim>\<open>os.Create\<close>, then the encoder writes the document. The write
  itself is taken to succeed once the file is created.
\<close>

definition SaveMetaData ::
  "world \<Rightarrow> filesystem \<Rightarrow> FileMetadata \<Rightarrow> string \<Rightarrow> error option \<times> filesystem" where
  "SaveMetaData w fs d path =
     (if creatable w path then (None, fs(path \<mapsto> Document (marshal_FileMetadata d)))
      else (Some ErrCreate, fs))"

section \<open>The decoder of encoding/json\<close>

text \<open>
  \<open>ReadMetaData\<close> decodes with \<^verbatim>\<open>json.NewDecoder(file).Decode(&m)\<close> into a nil
  \<^verbatim>\<open>*FileMetadata\<close>. The functions below follow the rules of \<^verbatim>\<open>json.Unmarshal\<close> for the
  types of \<open>FileMetadata\<close> and \<open>Chunk\<close>; \<open>None\<close> is a decoding error.

  Base64 first: the value of a character of the alphabet, and the decoding of groups
  of four characters, of which only the last may be padded. The decoder skips carriage
  returns and line feeds.
\<close>

fun index_of :: "'a \<Rightarrow> 'a list \<Rightarrow> nat option" where
  "index_of x [] = None"
| "index_of x (y # ys) = (if x = y then Some 0 else map_option Suc (index_of x ys))"

definition b64_value :: "char \<Rightarrow> nat option" where
  "b64_value c = index_of c b64_alphabet"

definition b64_final :: "char \<Rightarrow> char \<Rightarrow> char \<Rightarrow> char \<Rightarrow> string option" where
  "b64_final a b c d =
     (case (b64_value a, b64_value b) of
        (Some p, Some q) \<Rightarrow>
          if c = CHR ''='' \<and> d = CHR ''='' then Some [char_of ((p * 64 + q) div 16)]
          else (case b64_value c of
                  None \<Rightarrow> None
                | Some r \<Rightarrow>
                    if d = CHR ''=''
                    then Some [char_of (((p * 64 + q) * 64 + r) div 1024),
                               char_of (((p * 64 + q) * 64 + r) div 4)]
                    else (case b64_value d of
                            None \<Rightarrow> None
                          | Some s \<Rightarrow>
                              Some [char_of ((((p * 64 + q) * 64 + r) * 64 + s) div 65536),
                                    char_of ((((p * 64 + q) * 64 + r) * 64 + s) div 256),
                                    char_of (((p * 64 + q) * 64 + r) * 64 + s)]))
      | _ \<Rightarrow> None)"

fun b64_groups :: "string \<Rightarrow> string option" where
  "b64_groups [] = Some []"
| "b64_groups (a # b # c # d # rest) =
     (if rest = [] then b64_final a b c d
      else (case (b64_value a, b64_value b, b64_value c, b64_value d) of
              (Some p, Some q, Some r, Some s) \<Rightarrow>
                (case b64_groups rest of
                   None \<Rightarrow> None
                 | Some t \<Rightarrow>
                     Some ([char_of ((((p * 64 + q) * 64 + r) * 64 + s) div 65536),
                            char_of ((((p * 64 + q) * 64 + r) * 64 + s) div 256),
                            char_of (((p * 64 + q) * 64 + r) * 64 + s)] @ t))
            | _ \<Rightarrow> None))"
| "b64_groups _ = None"

definition b64decode :: "string \<Rightarrow> string option" where
  "b64decode s =
     b64_groups (filter (\<lambda>c. c \<noteq> CHR 0x0D \<and> c \<noteq> CHR 0x0A) s)"

text \<open>
  A key of a JSON object selects the struct field whose name it equals, or equals
  under Unicode case folding. The names here are ASCII, so folding maps a key to lower
  case, with the two runes outside ASCII that fold to ASCII letters: U+017F (bytes
  C5 BF) to \<open>s\<close> and U+212A (bytes E2 84 AA) to \<open>k\<close>.
\<close>

definition ascii_lower :: "char \<Rightarrow> char" where
  "ascii_lower c =
     (if 65 \<le> (of_char c :: nat) \<and> (of_char c :: nat) \<le> 90
      then char_of ((of_char c :: nat) + 32) else c)"

fun fold_key :: "string \<Rightarrow> string" where
  "fold_key [] = []"
| "fold_key (c # cs) =
     (if (of_char c :: nat) = 197 \<and> byte_in cs 0 191 191 then CHR ''s'' # fold_key (tl cs)
      else if (of_char c :: nat) = 226 \<and> byte_in cs 0 132 132 \<and> byte_in cs 1 170 170
      then CHR ''k'' # fold_key (tl (tl cs))
      else ascii_lower c # fold_key cs)"

definition key_is :: "string \<Rightarrow> string \<Rightarrow> bool" where
  "key_is k name = (fold_key k = map ascii_lower name)"

text \<open>
  Values. \<open>null\<close> leaves an integer or a string as it is and makes a slice nil. An
  integer field takes a number literal in integer notation that fits 64 bits. A byte
  slice takes a base64 string, or an array of numbers from 0 to 255.
\<close>

definition as_int64 :: "int \<Rightarrow> json \<Rightarrow> int option" where
  "as_int64 cur v =
     (case v of
        JNull \<Rightarrow> Some cur
      | JInt n \<Rightarrow> if in_int64 n then Some n else None
      | _ \<Rightarrow> None)"

definition as_string :: "string \<Rightarrow> json \<Rightarrow> string option" where
  "as_string cur v =
     (case v of
        JNull \<Rightarrow> Some cur
      | JString s \<Rightarrow> Some s
      | _ \<Rightarrow> None)"

definition as_byte :: "json \<Rightarrow> char option" where
  "as_byte v =
     (case v of
        JNull \<Rightarrow> Some (CHR 0x00)
      | JInt n \<Rightarrow> if 0 \<le> n \<and> n \<le> 255 then Some (char_of n) else None
      | _ \<Rightarrow> None)"

fun all_some :: "'a option list \<Rightarrow> 'a list option" where
  "all_some [] = Some []"
| "all_some (x # xs) =
     (case x of
        None \<Rightarrow> None
      | Some y \<Rightarrow> (case all_some xs of None \<Rightarrow> None | Some ys \<Rightarrow> Some (y # ys)))"

definition as_bytes :: "json \<Rightarrow> string option option" where
  "as_bytes v =
     (case v of
        JNull \<Rightarrow> Some None
      | JString s \<Rightarrow> (case b64decode s of None \<Rightarrow> None | Some d \<Rightarrow> Some (Some d))
      | JArray xs \<Rightarrow> (case all_some (map as_byte xs) of None \<Rightarrow> None | Some d \<Rightarrow> Some (Some d))
      | _ \<Rightarrow> None)"

text \<open>
  Structs: the members of the object are taken in order, each stored in the field its
  key selects; a key that selects no field is skipped.
\<close>

fun Chunk_members :: "(string \<times> json) list \<Rightarrow> Chunk \<Rightarrow> Chunk option" where
  "Chunk_members [] c = Some c"
| "Chunk_members ((k, v) # kvs) c =
     (if key_is k ''Data'' then
        (case as_bytes v of None \<Rightarrow> None | Some d \<Rightarrow> Chunk_members kvs (c\<lparr>Data := d\<rparr>))
      else if key_is k ''Start'' then
        (case as_int64 (Start c) v of None \<Rightarrow> None | Some n \<Rightarrow> Chunk_members kvs (c\<lparr>Start := n\<rparr>))
      else if key_is k ''End'' then
        (case as_int64 (End c) v of None \<Rightarrow> None | Some n \<Rightarrow> Chunk_members kvs (c\<lparr>End := n\<rparr>))
      else if key_is k ''Index'' then
        (case as_int64 (Index c) v of None \<Rightarrow> None | Some n \<Rightarrow> Chunk_members kvs (c\<lparr>Index := n\<rparr>))
      else Chunk_members kvs c)"

definition unmarshal_Chunk :: "json \<Rightarrow> Chunk option" where
  "unmarshal_Chunk v =
     (case v of
        JNull \<Rightarrow> Some \<lparr>Data = None, Start = 0, End = 0, Index = 0\<rparr>
      | JObject kvs \<Rightarrow> Chunk_members kvs \<lparr>Data = None, Start = 0, End = 0, Index = 0\<rparr>
      | _ \<Rightarrow> None)"

definition as_Chunks :: "json \<Rightarrow> Chunk list option" where
  "as_Chunks v =
     (case v of
        JNull \<Rightarrow> Some []
      | JArray xs \<Rightarrow> all_some (map unmarshal_Chunk xs)
      | _ \<Rightarrow> None)"

fun FileMetadata_members :: "(string \<times> json) list \<Rightarrow> FileMetadata \<Rightarrow> FileMetadata option" where
  "FileMetadata_members [] m = Some m"
| "FileMetadata_members ((k, v) # kvs) m =
     (if key_is k ''url'' then
        (case as_string (URL m) v of
           None \<Rightarrow> None | Some s \<Rightarrow> FileMetadata_members kvs (m\<lparr>URL := s\<rparr>))
      else if key_is k ''missed_chunks'' then
        (case as_Chunks v of
           None \<Rightarrow> None | Some cs \<Rightarrow> FileMetadata_members kvs (m\<lparr>MissedChunks := cs\<rparr>))
      else if key_is k ''total_size'' then
        (case as_int64 (TotalSize m) v of
           None \<Rightarrow> None | Some n \<Rightarrow> FileMetadata_members kvs (m\<lparr>TotalSize := n\<rparr>))
      else if key_is k ''downloaded_size'' then
        (case as_int64 (DownloadedSize m) v of
           None \<Rightarrow> None | Some n \<Rightarrow> FileMetadata_members kvs (m\<lparr>DownloadedSize := n\<rparr>))
      else FileMetadata_members kvs m)"

text \<open>
  Decoding into the nil pointer: \<open>null\<close> leaves it nil without error; an object fills
  a fresh zero \<open>FileMetadata\<close>; anything else is an error.
\<close>

definition unmarshal_FileMetadata :: "json \<Rightarrow> FileMetadata option" where
  "unmarshal_FileMetadata v =
     (case v of
        JObject kvs \<Rightarrow>
          FileMetadata_members kvs \<lparr>URL = '''', MissedChunks = [], TotalSize = 0, DownloadedSize = 0\<rparr>
      | _ \<Rightarrow> None)"

text \<open>
  \<open>ReadMetaData\<close>: nil when the file cannot be opened, and nil when decoding returns
  an error (a file that holds no JSON text, or a document that does not fit the type).
\<close>

definition ReadMetaData :: "filesystem \<Rightarrow> string \<Rightarrow> FileMetadata option" where
  "ReadMetaData fs path =
     (case fs path of
        None \<Rightarrow> None
      | Some (Bytes b) \<Rightarrow> None
      | Some (Document v) \<Rightarrow> unmarshal_FileMetadata v)"

section \<open>The chunk fetcher\<close>

text \<open>The local \<^verbatim>\<open>maxRetries := 3\<close> of \<open>downloadFile\<close> and of \<open>DownloadChunk\<close>.\<close>

definition maxRetries :: nat where
  "maxRetries = 3"

text \<open>
  \<open>Chunk.Download\<close>. The byte range is set first, whatever becomes of the request.
  A request that cannot be built, a client error and a status of 400 or more return
  an error and leave \<open>Data\<close> as it was; otherwise \<open>Data\<close> becomes what
  \<^verbatim>\<open>io.ReadAll\<close> read, and the error of the read is returned.
\<close>

definition Download :: "Chunk \<Rightarrow> int \<Rightarrow> int \<Rightarrow> body_outcome \<Rightarrow> Chunk \<times> error option" where
  "Download c chunkSize sz out =
     (let start = wrap64 (Index c * chunkSize);
          e = wrap64 (wrap64 (start + chunkSize) - 1);
          c1 = (if e \<ge> sz then c\<lparr>Start := start, End := wrap64 (sz - 1)\<rparr>
                else if Index c = 0 then c\<lparr>Start := 0, End := e\<rparr>
                else c\<lparr>Start := start, End := e\<rparr>)
      in case out of
           NoRequest \<Rightarrow> (c1, Some ErrCreateRequest)
         | NoResponse \<Rightarrow> (c1, Some ErrConnect)
         | Body status d rerr \<Rightarrow>
             if status \<ge> 400 then (c1, Some (ErrChunkStatus status))
             else (c1\<lparr>Data := Some d\<rparr>, if rerr then Some ErrRead else None))"

text \<open>\<^verbatim>\<open>len(c.Data)\<close>: the length of a nil slice is 0.\<close>

definition len_bytes :: "string option \<Rightarrow> nat" where
  "len_bytes d = (case d of None \<Rightarrow> 0 | Some b \<Rightarrow> length b)"

text \<open>
  \<open>Chunk.WriteToFile\<close>: refuses a chunk without data, writes the data at offset
  \<open>Start\<close> (\<^verbatim>\<open>WriteAt\<close> rejects a negative offset), then checks that the file still
  exists.
\<close>

definition WriteToFile ::
  "Chunk \<Rightarrow> os_file option \<Rightarrow> filesystem \<Rightarrow> write_outcome \<Rightarrow> error option \<times> filesystem" where
  "WriteToFile c f fs wo =
     (case Data c of
        None \<Rightarrow> (Some ErrNoData, fs)
      | Some d \<Rightarrow>
          (case f of
             None \<Rightarrow> (Some ErrWrite, fs)
           | Some h \<Rightarrow>
               if Start c < 0 \<or> wo = WriteFails then (Some ErrWrite, fs)
               else (let fs' = fs(fname h \<mapsto>
                                 Bytes (write_at (file_bytes fs (fname h)) (nat (Start c)) d))
                     in if wo = StatFails then (Some ErrStat, fs') else (None, fs'))))"

text \<open>
  The retry loop of \<open>DownloadChunk\<close>: \<open>r\<close> is the loop variable, \<open>net r\<close> the
  outcome of the request of attempt \<open>r\<close>. Every call of \<open>Download\<close> is recorded with
  the range it asks for, every \<^verbatim>\<open>time.Sleep(2 * time.Second)\<close> as \<open>EvSleep 2\<close>.
\<close>

function download_attempts ::
  "(nat \<Rightarrow> body_outcome) \<Rightarrow> int \<Rightarrow> int \<Rightarrow> nat \<Rightarrow> Chunk \<Rightarrow> event list \<Rightarrow> Chunk \<times> event list" where
  "download_attempts net chunkSize sz r c tr =
     (if r < maxRetries then
        (case Download c chunkSize sz (net r) of
           (c', err) \<Rightarrow>
             if err = None \<and> Data c' \<noteq> None
             then (c', tr @ [EvRangeGet (Index c') (Start c') (End c')])
             else download_attempts net chunkSize sz (Suc r) c'
                    (tr @ [EvRangeGet (Index c') (Start c') (End c'), EvSleep 2]))
      else (c, tr))"
  by pat_completeness auto
termination
  by (relation "measure (\<lambda>(net, chunkSize, sz, r, c, tr). maxRetries - r)") auto

definition DownloadChunk :: "world \<Rightarrow> proc \<Rightarrow> int \<Rightarrow> (exit + unit) \<times> proc" where
  "DownloadChunk w st i =
     (case download_attempts (range_result w i) (ChunkSize (info st)) (Size (info st)) 0
             \<lparr>Data = None, Start = 0, End = 0, Index = i\<rparr> (trace st) of
        (c, tr) \<Rightarrow>
          (let md = Metadata (info st);
               md' = (if len_bytes (Data c) = 0
                      then md\<lparr>MissedChunks := MissedChunks md @ [c]\<rparr> else md);
               st1 = st\<lparr>info := (info st)\<lparr>Metadata := md'\<rparr>, trace := tr\<rparr>
           in case WriteToFile c (File (info st1)) (files st1) (write_result w i) of
                (Some err, fs') \<Rightarrow> (Inl (Fatal ''Failed to write to file: ''), st1\<lparr>files := fs'\<rparr>)
              | (None, fs') \<Rightarrow> (Inr (), st1\<lparr>files := fs'\<rparr>)))"

section \<open>Package workers: the pool\<close>

text \<open>
  A task is a closure over the process state. The pool hands the tasks to its workers
  in queue order; the model runs each task to its end before the next one starts, which
  is what the pool does with one worker. \<^verbatim>\<open>log.Fatal\<close> in a task ends the process, so
  the tasks after it do not run. With tasks to run and no worker, \<^verbatim>\<open>wg.Wait\<close> never
  returns and the Go run time stops the process.
\<close>

record Task =
  ExecFunc :: "(proc \<Rightarrow> (exit + unit) \<times> proc) option"
  ID :: int

definition Process :: "Task \<Rightarrow> proc \<Rightarrow> (exit + unit) \<times> proc" where
  "Process t st = (case ExecFunc t of Some f \<Rightarrow> f st | None \<Rightarrow> (Inr (), st))"

record WorkerPool =
  Tasks :: "Task list"
  Concurrency :: int

fun run_tasks :: "Task list \<Rightarrow> proc \<Rightarrow> (exit + unit) \<times> proc" where
  "run_tasks [] st = (Inr (), st)"
| "run_tasks (t # ts) st =
     (case Process t st of
        (Inl e, st') \<Rightarrow> (Inl e, st')
      | (Inr u, st') \<Rightarrow> run_tasks ts st')"

definition Run :: "WorkerPool \<Rightarrow> proc \<Rightarrow> (exit + unit) \<times> proc" where
  "Run wp st =
     (if Tasks wp = [] then (Inr (), st)
      else if Concurrency wp \<le> 0
      then (Inl (Fatal ''all goroutines are asleep - deadlock!''), st)
      else run_tasks (Tasks wp) st)"

section \<open>The transfer orchestrator\<close>

text \<open>
  \<^verbatim>\<open>int(math.Ceil(float64(fi.Size) / fi.ChunkSize))\<close>, with the division and the
  ceiling taken in the reals (the \<^verbatim>\<open>float64\<close> operations are exact on the sizes a
  transfer has). A chunk size of 0 makes the quotient infinite or not a number, and
  Go leaves the conversion of such a value to \<^verbatim>\<open>int\<close> to the implementation: \<open>None\<close>.
\<close>

definition totalFileChunks :: "int \<Rightarrow> int \<Rightarrow> int option" where
  "totalFileChunks sz chunkSize =
     (if chunkSize = 0 then None
      else Some \<lceil>real_of_int sz / real_of_int chunkSize\<rceil>)"

text \<open>
  \<open>DownloadInChunks\<close>. \<^verbatim>\<open>make\<close> panics on a negative length. The URL is a parameter
  of the source that only reaches the requests, whose outcomes are in \<open>world\<close>.
\<close>

definition DownloadInChunks :: "world \<Rightarrow> proc \<Rightarrow> (exit + int) \<times> proc" where
  "DownloadInChunks w st =
     (case totalFileChunks (Size (info st)) (ChunkSize (info st)) of
        None \<Rightarrow> (Inl Unspecified, st)
      | Some n \<Rightarrow>
          if n < 0 then (Inl (GoPanic ''makeslice: len out of range''), st)
          else (let chunks = replicate (nat n) (None :: Chunk option);
                    tasks = map (\<lambda>i. \<lparr>ExecFunc = Some (\<lambda>s. DownloadChunk w s (int i)),
                                       ID = int i + 1\<rparr>) [0..<nat n];
                    wp = \<lparr>Tasks = tasks,
                          Concurrency = min (int (length tasks)) (numCPU w)\<rparr>
                in case Run wp st of
                     (Inl e, st') \<Rightarrow> (Inl e, st')
                   | (Inr u, st') \<Rightarrow> (Inr (int (length chunks) - n), st')))"

text \<open>
  \<open>StreamBufInChunks\<close>: one GET, the body copied to the file at its cursor. The
  result is the number of bytes \<^verbatim>\<open>io.Copy\<close> wrote and its error.
\<close>

definition StreamBufInChunks :: "proc \<Rightarrow> body_outcome \<Rightarrow> (int \<times> error option) \<times> proc" where
  "StreamBufInChunks st out =
     (case out of
        NoRequest \<Rightarrow> ((0, Some ErrConnect), st)
      | NoResponse \<Rightarrow> ((0, Some ErrConnect), st)
      | Body status d cerr \<Rightarrow>
          if status \<ge> 400 then ((0, Some (ErrChunkStatus status)), st)
          else (case File (info st) of
                  None \<Rightarrow> ((0, Some ErrWrite), st)
                | Some h \<Rightarrow>
                    ((int (length d), if cerr then Some ErrRead else None),
                     st\<lparr>info := (info st)\<lparr>File := Some (h\<lparr>cursor := cursor h + length d\<rparr>)\<rparr>,
                        files := (files st)(fname h \<mapsto>
                          Bytes (write_at (file_bytes (files st) (fname h)) (cursor h) d))\<rparr>)))"

text \<open>
  The streaming loop of \<open>downloadFile\<close>:
  \<^verbatim>\<open>for r := 0; r < maxRetries; r++ { r++; ... }\<close>. \<open>r\<close> is the loop variable, which
  the body increments before the request and the loop header after it; \<open>k\<close> counts
  the requests made so far, so that request \<open>k\<close> sees \<open>stream_result w k\<close>.
\<close>

function stream_attempts :: "world \<Rightarrow> nat \<Rightarrow> nat \<Rightarrow> proc \<Rightarrow> proc" where
  "stream_attempts w r k st =
     (if r < maxRetries then
        (let r1 = Suc r in
         case StreamBufInChunks (st\<lparr>trace := trace st @ [EvStreamGet]\<rparr>) (stream_result w k) of
           ((bytesWritten, err), st') \<Rightarrow>
             if err = None \<and> bytesWritten \<noteq> 0 then st'
             else stream_attempts w (Suc r1) (Suc k) (st'\<lparr>trace := trace st' @ [EvSleep 2]\<rparr>))
      else st)"
  by pat_completeness auto
termination
  by (relation "measure (\<lambda>(w, r, k, st). maxRetries - r)") auto

text \<open>
  The end of \<open>downloadFile\<close>: with missed chunks recorded, the metadata is saved next
  to the output file. The result of \<open>SaveMetaData\<close> is dropped; the test that follows
  it reads the error of \<open>CreateFile\<close>, which is nil at this point. The deferred calls
  close the file and remove the side file.
\<close>

definition save_missed :: "world \<Rightarrow> proc \<Rightarrow> string \<Rightarrow> proc" where
  "save_missed w st outDir =
     (if length (MissedChunks (Metadata (info st))) > 0
      then (let p = GetFullPath (info st) outDir @ ''.meta.json'';
                fs' = snd (SaveMetaData w (files st) (Metadata (info st)) p)
            in st\<lparr>files := fs'(p := None)\<rparr>)
      else st)"

text \<open>
  \<open>downloadFile\<close>, the command's \<^verbatim>\<open>Run\<close> function. \<open>outDir\<close> and \<open>chunkSizeMB\<close>
  are the package variables \<open>OutputDir\<close> and \<open>ChunkSizeMB\<close>; \<open>fs\<close> is the file system
  the run starts with.
\<close>

definition downloadFile ::
  "world \<Rightarrow> filesystem \<Rightarrow> string \<Rightarrow> string \<Rightarrow> int \<Rightarrow> (exit + unit) \<times> proc" where
  "downloadFile w fs url outDir chunkSizeMB =
     (let st0 = \<lparr>info = initial_FileInfo url, files = fs, trace = []\<rparr> in
      case getFileInfo url (head_result w) (get_result w) of
        (fio, err) \<Rightarrow>
          if err \<noteq> None \<and> err \<noteq> Some ErrRangeNotSupported
          then (Inl (Fatal ''Error: Failed to get file info ''), st0)
          else (case fio of
                  None \<Rightarrow> (Inl (GoPanic ''nil pointer dereference''), st0)
                | Some fi \<Rightarrow>
                    (case CreateFile w (st0\<lparr>info := fi\<rparr>) outDir of
                       (Some e, st1) \<Rightarrow> (Inl (Fatal ''Error: failed to create a file''), st1)
                     | (None, st1) \<Rightarrow>
                         if Size (info st1) \<le> 0
                         then (Inr (), save_missed w (stream_attempts w 0 0 st1) outDir)
                         else if AcceptsRanges (info st1)
                         then (case DownloadInChunks w
                                      (st1\<lparr>info := (info st1)\<lparr>ChunkSize := chunkSizeMB * 2 ^ 20\<rparr>\<rparr>) of
                                 (Inl e, st2) \<Rightarrow> (Inl e, st2)
                               | (Inr n, st2) \<Rightarrow> (Inr (), save_missed w st2 outDir))
                         else (Inr (), save_missed w st1 outDir))))"

section \<open>Notions used in the statements\<close>

text \<open>
  When \<open>Download\<close> returns an error: no response, a status of 400 or more, or a body
  whose read ended with an error.
\<close>

definition download_fails :: "body_outcome \<Rightarrow> bool" where
  "download_fails out =
     (case out of
        NoRequest \<Rightarrow> True
      | NoResponse \<Rightarrow> True
      | Body status d rerr \<Rightarrow> status \<ge> 400 \<or> rerr)"


text \<open>
  A transfer that leaves \<open>Data\<close> untouched: no response, or a status of 400 or more.
\<close>

definition no_body :: "body_outcome \<Rightarrow> bool" where
  "no_body out =
     (case out of
        NoRequest \<Rightarrow> True
      | NoResponse \<Rightarrow> True
      | Body status d rerr \<Rightarrow> status \<ge> 400)"

text \<open>
  Whether \<open>DownloadChunk\<close> for index \<open>i\<close> gets past its write: the chunk its retry
  loop ends with is written without error.
\<close>

definition chunk_completes :: "world \<Rightarrow> FileInfo \<Rightarrow> int \<Rightarrow> bool" where
  "chunk_completes w fi i =
     (case download_attempts (range_result w i) (ChunkSize fi) (Size fi) 0
             \<lparr>Data = None, Start = 0, End = 0, Index = i\<rparr> [] of
        (c, tr) \<Rightarrow> fst (WriteToFile c (File fi) Map.empty (write_result w i)) = None)"


section \<open>Concrete runs\<close>

text \<open>
  Inputs for the closed statements below: a probe response with status 200 and the
  given Content-Length and Accept-Ranges headers, a world in which HEAD gets that
  response, every file can be created and every write succeeds, and the state of a
  transfer of the given size and chunk size whose output file \<open>out.bin\<close> is open and
  empty.
\<close>

definition example_response :: "string \<Rightarrow> string \<Rightarrow> response" where
  "example_response len ranges =
     \<lparr>StatusCode = 200, ContentDisposition = '''', ContentType = '''',
      ContentLength = len, AcceptRanges = ranges\<rparr>"

definition example_world ::
  "response \<Rightarrow> (nat \<Rightarrow> body_outcome) \<Rightarrow> (int \<Rightarrow> nat \<Rightarrow> body_outcome) \<Rightarrow> world" where
  "example_world r str rng =
     \<lparr>head_result = Responded r, get_result = ClientFailed, creatable = (\<lambda>p. True),
      stream_result = str, range_result = rng, write_result = (\<lambda>i. WriteOk), numCPU = 4\<rparr>"

definition example_proc :: "int \<Rightarrow> int \<Rightarrow> proc" where
  "example_proc sz chunkSize =
     \<lparr>info = (initial_FileInfo ''http://host/file'')
               \<lparr>File := Some \<lparr>fname = ''out.bin'', cursor = 0\<rparr>,
                Size := sz, ChunkSize := chunkSize\<rparr>,
      files = [''out.bin'' \<mapsto> Bytes []],
      trace = []\<rparr>"

section \<open>Splitting a file name at its last dot\<close>

lemma last_index_upto_range: "-1 \<le> last_index_upto s sep n \<and> last_index_upto s sep n \<le> int n"
  by (induction n) auto

lemma last_index_upto_none:
  "last_index_upto s sep n = -1 \<longleftrightarrow> (\<forall>i\<le>n. take (length sep) (drop i s) \<noteq> sep)"
proof (induction n)
  case 0
  then show ?case by simp
next
  case (Suc n)
  show ?case
  proof (cases "take (length sep) (drop (Suc n) s) = sep")
    case True
    then show ?thesis by auto
  next
    case False
    then show ?thesis using Suc by (auto simp: le_Suc_eq)
  qed
qed

lemma last_index_upto_found:
  "last_index_upto s sep n = int k \<Longrightarrow>
     k \<le> n \<and> take (length sep) (drop k s) = sep \<and>
     (\<forall>j. k < j \<and> j \<le> n \<longrightarrow> take (length sep) (drop j s) \<noteq> sep)"
proof (induction n)
  case 0
  then show ?case by (auto split: if_splits)
next
  case (Suc n)
  show ?case
  proof (cases "take (length sep) (drop (Suc n) s) = sep")
    case True
    with Suc.prems have "k = Suc n" by simp
    with True show ?thesis by auto
  next
    case False
    with Suc.prems have "last_index_upto s sep n = int k" by simp
    from Suc.IH [OF this] False show ?thesis by (auto simp: le_Suc_eq)
  qed
qed

lemma take1_drop_dot:
  "take (length ''.'') (drop i s) = ''.'' \<longleftrightarrow> i < length s \<and> s ! i = CHR ''.''"
proof (cases "i < length s")
  case True
  then have "drop i s = s ! i # drop (Suc i) s" by (simp add: Cons_nth_drop_Suc)
  then show ?thesis using True by simp
next
  case False
  then show ?thesis by simp
qed

lemma LastIndex_dot_none: "LastIndex s ''.'' = -1 \<longleftrightarrow> CHR ''.'' \<notin> set s"
proof (cases s)
  case Nil
  then show ?thesis by (simp add: LastIndex_def)
next
  case (Cons a t)
  then have "LastIndex s ''.'' = last_index_upto s ''.'' (length s - 1)"
    by (simp add: LastIndex_def)
  moreover have "\<And>i. i \<le> length s - 1 \<longleftrightarrow> i < length s"
    using Cons by auto
  then have "(\<forall>i\<le>length s - 1. \<not> (i < length s \<and> s ! i = CHR ''.'')) \<longleftrightarrow> CHR ''.'' \<notin> set s"
    by (auto simp: in_set_conv_nth)
  ultimately show ?thesis
    using last_index_upto_none [of s "''.''" "length s - 1"] take1_drop_dot [of _ s] by simp
qed

lemma LastIndex_dot_found:
  assumes "LastIndex s ''.'' \<noteq> -1"
  obtains k where "LastIndex s ''.'' = int k" "k < length s" "s ! k = CHR ''.''"
    "\<forall>j. k < j \<and> j < length s \<longrightarrow> s ! j \<noteq> CHR ''.''"
proof -
  from assms have ne: "s \<noteq> []" by (auto simp: LastIndex_def)
  then have eq: "LastIndex s ''.'' = last_index_upto s ''.'' (length s - 1)"
    by (cases s) (simp_all add: LastIndex_def)
  with assms last_index_upto_range [of s "''.''" "length s - 1"]
  have "0 \<le> LastIndex s ''.''" by simp
  then obtain k where k: "LastIndex s ''.'' = int k" by (metis nonneg_int_cases)
  from last_index_upto_found [of s "''.''" "length s - 1" k] eq k
  have f: "k \<le> length s - 1" "take (length ''.'') (drop k s) = ''.''"
    "\<forall>j. k < j \<and> j \<le> length s - 1 \<longrightarrow> take (length ''.'') (drop j s) \<noteq> ''.''"
    by simp_all
  from f(2) have "k < length s" "s ! k = CHR ''.''" using take1_drop_dot [of k s] by simp_all
  moreover have "\<forall>j. k < j \<and> j < length s \<longrightarrow> s ! j \<noteq> CHR ''.''"
  proof (intro allI impI)
    fix j assume j: "k < j \<and> j < length s"
    then have "j \<le> length s - 1" by arith
    with f(3) j have "take (length ''.'') (drop j s) \<noteq> ''.''" by blast
    with take1_drop_dot [of j s] j show "s ! j \<noteq> CHR ''.''" by simp
  qed
  ultimately show thesis using that k by blast
qed

text \<open>
  Claim C9. For every string \<open>s\<close>: when \<open>s\<close> has no dot, \<open>splitLastDot s\<close> is \<open>s\<close>
  with an empty extension; otherwise the extension has no dot and stem, dot and
  extension put together give \<open>s\<close> back.
\<close>

theorem splitLastDot_spec:
  "(CHR ''.'' \<notin> set s \<longrightarrow> splitLastDot s = (s, '''')) \<and>
   (CHR ''.'' \<in> set s \<longrightarrow>
      CHR ''.'' \<notin> set (snd (splitLastDot s)) \<and>
      fst (splitLastDot s) @ ''.'' @ snd (splitLastDot s) = s)"
proof (intro conjI impI)
  assume "CHR ''.'' \<notin> set s"
  then have "LastIndex s ''.'' = -1" by (simp add: LastIndex_dot_none)
  then show "splitLastDot s = (s, '''')" by (simp add: splitLastDot_def)
next
  assume "CHR ''.'' \<in> set s"
  then have ne: "LastIndex s ''.'' \<noteq> -1" by (simp add: LastIndex_dot_none)
  then obtain k where k: "LastIndex s ''.'' = int k" "k < length s" "s ! k = CHR ''.''"
    "\<forall>j. k < j \<and> j < length s \<longrightarrow> s ! j \<noteq> CHR ''.''"
    by (rule LastIndex_dot_found)
  have sp: "splitLastDot s = (take k s, drop (Suc k) s)"
    using k(1) by (simp add: splitLastDot_def nat_add_distrib)
  have "CHR ''.'' \<notin> set (drop (Suc k) s)"
  proof
    assume "CHR ''.'' \<in> set (drop (Suc k) s)"
    then obtain i where "i < length (drop (Suc k) s)" "drop (Suc k) s ! i = CHR ''.''"
      by (auto simp: in_set_conv_nth)
    then have "Suc k + i < length s" "s ! (Suc k + i) = CHR ''.''" by auto
    with k(4) show False by (metis less_add_Suc1 add_Suc)
  qed
  moreover have "take k s @ ''.'' @ drop (Suc k) s = s"
    using k(2,3) by (metis append_Cons append_Nil id_take_nth_drop)
  ultimately show "CHR ''.'' \<notin> set (snd (splitLastDot s))"
    and "fst (splitLastDot s) @ ''.'' @ snd (splitLastDot s) = s"
    by (simp_all add: sp)
qed

theorem splitLastDot_spec_witness:
  "splitLastDot ''archive.tar.gz'' = (''archive.tar'', ''gz'') \<and>
   splitLastDot ''README'' = (''README'', '''')"
  using splitLastDot_spec [of "''archive.tar.gz''"] splitLastDot_spec [of "''README''"]
  by (simp add: splitLastDot_def LastIndex_def)


section \<open>The extension of a MIME type\<close>

lemma MimeToExt_keys_distinct: "distinct (map fst MimeToExt_entries)"
  unfolding MimeToExt_entries_def by simp

lemma MimeToExt_entry: "(k, v) \<in> set MimeToExt_entries \<Longrightarrow> MimeToExt k = Some v"
  unfolding MimeToExt_def by (rule map_of_is_SomeI [OF MimeToExt_keys_distinct])

lemma dom_MimeToExt: "dom MimeToExt = fst ` set MimeToExt_entries"
  unfolding MimeToExt_def by (rule dom_map_of_conv_image_fst)

text \<open>
  Claim C8. \<open>GetFileExtension\<close> returns the mapped extension for every key of the
  \<open>MimeToExt\<close> table and \<open>bin\<close> for every string that is not a key.
\<close>

theorem GetFileExtension_table:
  "(\<forall>(k, v) \<in> set MimeToExt_entries. GetFileExtension k = v) \<and>
   (\<forall>s. s \<notin> fst ` set MimeToExt_entries \<longrightarrow> GetFileExtension s = ''bin'')"
proof (intro conjI ballI allI impI)
  fix kv assume "kv \<in> set MimeToExt_entries"
  then have "MimeToExt (fst kv) = Some (snd kv)" by (simp add: MimeToExt_entry)
  then show "case kv of (k, v) \<Rightarrow> GetFileExtension k = v"
    by (cases kv) (simp add: GetFileExtension_def)
next
  fix s assume "s \<notin> fst ` set MimeToExt_entries"
  then have "MimeToExt s = None" using dom_MimeToExt by blast
  then show "GetFileExtension s = ''bin''" by (simp add: GetFileExtension_def)
qed


theorem GetFileExtension_table_witness:
  "GetFileExtension ''application/x-iso9660-image'' = ''iso'' \<and>
   GetFileExtension ''application/octet-stream'' = ''bin''"
  using GetFileExtension_table by (simp add: MimeToExt_entries_def)

section \<open>The capability probe: hard and soft failure\<close>

lemma ParseInt_42: "ParseInt ''42'' = Some 42"
  by (simp add: ParseInt_def is_digit_def in_int64_def)

lemma GetFileExtension_text_plain: "GetFileExtension ''text/plain'' = ''txt''"
  by (simp add: GetFileExtension_def MimeToExt_def MimeToExt_entries_def)

text \<open>
  Claim C7. Let \<open>r\<close> be the response \<open>getFileInfo\<close> goes on with. When its status
  is 400 or more, \<open>getFileInfo\<close> returns no descriptor and an error. When the status
  is below 400 and the Accept-Ranges header is not exactly \<open>bytes\<close>, it returns
  \<open>ErrRangeNotSupported\<close> together with a descriptor marked as not accepting ranges
  and otherwise populated (URL, name, extension, size, total size) exactly as the
  descriptor it returns without error when the header is \<open>bytes\<close>.
\<close>

theorem getFileInfo_spec:
  assumes "probe_response hres gres = Inr r"
  shows "(400 \<le> StatusCode r \<longrightarrow>
            getFileInfo url hres gres = (None, Some (ErrServerStatus (StatusCode r)))) \<and>
         (StatusCode r < 400 \<and> AcceptRanges r \<noteq> ''bytes'' \<longrightarrow>
            (\<exists>f. getFileInfo url hres gres = (Some f, Some ErrRangeNotSupported) \<and>
                 \<not> AcceptsRanges f \<and>
                 f = (fill_FileInfo (initial_FileInfo url) r)\<lparr>AcceptsRanges := False\<rparr> \<and>
                 URL (Metadata f) = url \<and>
                 MissedChunks (Metadata f) = [] \<and>
                 Name f = (case FindFilenameSubmatch (ContentDisposition r) of
                             Some filename \<Rightarrow> fst (splitLastDot filename)
                           | None \<Rightarrow> ''download'') \<and>
                 Ext f = (if ContentType r \<noteq> '''' then GetFileExtension (ContentType r) else '''') \<and>
                 Size f = (case ParseInt (ContentLength r) of Some s \<Rightarrow> s | None \<Rightarrow> 0) \<and>
                 TotalSize (Metadata f) = Size f)) \<and>
         (StatusCode r < 400 \<and> AcceptRanges r = ''bytes'' \<longrightarrow>
            getFileInfo url hres gres = (Some (fill_FileInfo (initial_FileInfo url) r), None))"
  using assms
  by (auto simp: getFileInfo_def fill_FileInfo_def initial_FileInfo_def Let_def
           split: option.splits)

theorem getFileInfo_spec_witness:
  "getFileInfo ''http://h/f''
     (Responded \<lparr>StatusCode = 503, ContentDisposition = '''', ContentType = '''',
                  ContentLength = '''', AcceptRanges = ''''\<rparr>)
     (Responded \<lparr>StatusCode = 404, ContentDisposition = '''', ContentType = '''',
                  ContentLength = '''', AcceptRanges = ''''\<rparr>)
     = (None, Some (ErrServerStatus 404)) \<and>
   getFileInfo ''http://h/f''
     (Responded \<lparr>StatusCode = 200, ContentDisposition = '''', ContentType = ''text/plain'',
                  ContentLength = ''42'', AcceptRanges = ''none''\<rparr>)
     ClientFailed
     = (Some \<lparr>File = None,
               Metadata = \<lparr>URL = ''http://h/f'', MissedChunks = [], TotalSize = 42,
                           DownloadedSize = 0\<rparr>,
               Name = ''download'', Ext = ''txt'', Size = 42, ChunkSize = 0,
               AcceptsRanges = False\<rparr>,
        Some ErrRangeNotSupported)"
  using getFileInfo_spec [of
      "Responded \<lparr>StatusCode = 503, ContentDisposition = '''', ContentType = '''',
                  ContentLength = '''', AcceptRanges = ''''\<rparr>"
      "Responded \<lparr>StatusCode = 404, ContentDisposition = '''', ContentType = '''',
                  ContentLength = '''', AcceptRanges = ''''\<rparr>"
      "\<lparr>StatusCode = 404, ContentDisposition = '''', ContentType = '''',
                  ContentLength = '''', AcceptRanges = ''''\<rparr>" "''http://h/f''"]
    getFileInfo_spec [of
      "Responded \<lparr>StatusCode = 200, ContentDisposition = '''', ContentType = ''text/plain'',
                  ContentLength = ''42'', AcceptRanges = ''none''\<rparr>"
      ClientFailed
      "\<lparr>StatusCode = 200, ContentDisposition = '''', ContentType = ''text/plain'',
                  ContentLength = ''42'', AcceptRanges = ''none''\<rparr>" "''http://h/f''"]
  by (simp add: probe_response_def fill_FileInfo_def initial_FileInfo_def
        ParseInt_42 GetFileExtension_text_plain)


section \<open>The retry loop and the pool: basic facts\<close>

declare download_attempts.simps [simp del]
declare stream_attempts.simps [simp del]

lemma Download_error_iff: "snd (Download c chunkSize sz out) \<noteq> None \<longleftrightarrow> download_fails out"
  by (cases out) (simp_all add: Download_def Let_def download_fails_def)

lemma Download_range_of_Index:
  "Index c = Index c' \<Longrightarrow>
     Start (fst (Download c chunkSize sz out)) = Start (fst (Download c' chunkSize sz out')) \<and>
     End (fst (Download c chunkSize sz out)) = End (fst (Download c' chunkSize sz out')) \<and>
     Index (fst (Download c chunkSize sz out)) = Index c'"
  by (cases out; cases out') (simp_all add: Download_def Let_def)

lemma Download_Data:
  "Data (fst (Download c chunkSize sz out)) =
     (case out of Body status d rerr \<Rightarrow> if status \<ge> 400 then Data c else Some d | _ \<Rightarrow> Data c)"
  by (cases out) (simp_all add: Download_def Let_def)

lemma download_attempts_3:
  "download_attempts net chunkSize sz (Suc (Suc (Suc 0))) c tr = (c, tr)"
  by (subst download_attempts.simps) (simp add: maxRetries_def)

lemma download_attempts_2:
  "download_attempts net chunkSize sz (Suc (Suc 0)) c tr =
     (case Download c chunkSize sz (net (Suc (Suc 0))) of
        (c3, e3) \<Rightarrow>
          if e3 = None \<and> Data c3 \<noteq> None
          then (c3, tr @ [EvRangeGet (Index c3) (Start c3) (End c3)])
          else (c3, tr @ [EvRangeGet (Index c3) (Start c3) (End c3), EvSleep 2]))"
  by (subst download_attempts.simps)
     (simp add: maxRetries_def download_attempts_3 split: prod.splits)

lemma download_attempts_1:
  "download_attempts net chunkSize sz (Suc 0) c tr =
     (case Download c chunkSize sz (net (Suc 0)) of
        (c2, e2) \<Rightarrow>
          if e2 = None \<and> Data c2 \<noteq> None
          then (c2, tr @ [EvRangeGet (Index c2) (Start c2) (End c2)])
          else download_attempts net chunkSize sz (Suc (Suc 0)) c2
                 (tr @ [EvRangeGet (Index c2) (Start c2) (End c2), EvSleep 2]))"
  by (subst download_attempts.simps) (simp add: maxRetries_def split: prod.splits)

lemma download_attempts_0:
  "download_attempts net chunkSize sz 0 c tr =
     (case Download c chunkSize sz (net 0) of
        (c1, e1) \<Rightarrow>
          if e1 = None \<and> Data c1 \<noteq> None
          then (c1, tr @ [EvRangeGet (Index c1) (Start c1) (End c1)])
          else download_attempts net chunkSize sz (Suc 0) c1
                 (tr @ [EvRangeGet (Index c1) (Start c1) (End c1), EvSleep 2]))"
  by (subst download_attempts.simps) (simp add: maxRetries_def split: prod.splits)

lemma attempts_third_success:
  assumes f0: "download_fails (net 0)" and f1: "download_fails (net 1)"
    and ok: "net 2 = Body status d False" "status < 400"
  shows "download_attempts net chunkSize sz 0 c tr =
           ((fst (Download c chunkSize sz NoResponse))\<lparr>Data := Some d\<rparr>,
            tr @ [EvRangeGet (Index c) (Start (fst (Download c chunkSize sz NoResponse)))
                     (End (fst (Download c chunkSize sz NoResponse))), EvSleep 2,
                  EvRangeGet (Index c) (Start (fst (Download c chunkSize sz NoResponse)))
                     (End (fst (Download c chunkSize sz NoResponse))), EvSleep 2,
                  EvRangeGet (Index c) (Start (fst (Download c chunkSize sz NoResponse)))
                     (End (fst (Download c chunkSize sz NoResponse)))])"
proof -
  have n1: "net (Suc 0) = net 1" and n2: "net (Suc (Suc 0)) = net 2"
    by (simp_all add: numeral_2_eq_2)
  obtain c1 e1 where d1: "Download c chunkSize sz (net 0) = (c1, e1)"
    by (cases "Download c chunkSize sz (net 0)")
  obtain c2 e2 where d2: "Download c1 chunkSize sz (net 1) = (c2, e2)"
    by (cases "Download c1 chunkSize sz (net 1)")
  obtain c3 e3 where d3: "Download c2 chunkSize sz (net 2) = (c3, e3)"
    by (cases "Download c2 chunkSize sz (net 2)")
  have e1: "e1 \<noteq> None" using Download_error_iff [of c chunkSize sz "net 0"] f0 d1 by simp
  have e2: "e2 \<noteq> None" using Download_error_iff [of c1 chunkSize sz "net 1"] f1 d2 by simp
  have "\<not> download_fails (net 2)" using ok by (simp add: download_fails_def)
  then have e3: "e3 = None" using Download_error_iff [of c2 chunkSize sz "net 2"] d3 by simp
  have e3d: "Data c3 = Some d" using Download_Data [of c2 chunkSize sz "net 2"] d3 ok by simp
  have i1: "Index c1 = Index c"
    using Download_range_of_Index [of c c chunkSize sz "net 0" NoResponse] d1 by simp
  have i2: "Index c2 = Index c"
    using Download_range_of_Index [of c1 c1 chunkSize sz "net 1" NoResponse] d2 i1 by simp
  have r1: "Start c1 = Start (fst (Download c chunkSize sz NoResponse))"
    "End c1 = End (fst (Download c chunkSize sz NoResponse))"
    using Download_range_of_Index [of c c chunkSize sz "net 0" NoResponse] d1 by simp_all
  have r2: "Start c2 = Start (fst (Download c chunkSize sz NoResponse))"
    "End c2 = End (fst (Download c chunkSize sz NoResponse))"
    using Download_range_of_Index [of c1 c chunkSize sz "net 1" NoResponse] d2 i1 by simp_all
  have r3: "Start c3 = Start (fst (Download c chunkSize sz NoResponse))"
    "End c3 = End (fst (Download c chunkSize sz NoResponse))" "Index c3 = Index c"
    using Download_range_of_Index [of c2 c chunkSize sz "net 2" NoResponse] d3 i2 by simp_all
  have c3: "c3 = (fst (Download c chunkSize sz NoResponse))\<lparr>Data := Some d\<rparr>"
    using r3 e3d Download_range_of_Index [of c c chunkSize sz NoResponse NoResponse]
    by (intro Chunk.equality) simp_all
  have s3: "download_attempts net chunkSize sz (Suc (Suc 0)) c2 tr' =
              (c3, tr' @ [EvRangeGet (Index c3) (Start c3) (End c3)])" for tr'
    unfolding download_attempts_2 n2 d3 using e3 e3d by simp
  have s2: "download_attempts net chunkSize sz (Suc 0) c1 tr' =
              (c3, tr' @ [EvRangeGet (Index c2) (Start c2) (End c2), EvSleep 2,
                          EvRangeGet (Index c3) (Start c3) (End c3)])" for tr'
    unfolding download_attempts_1 n1 d2 using e2 by (simp add: s3)
  have s1: "download_attempts net chunkSize sz 0 c tr =
              (c3, tr @ [EvRangeGet (Index c1) (Start c1) (End c1), EvSleep 2,
                         EvRangeGet (Index c2) (Start c2) (End c2), EvSleep 2,
                         EvRangeGet (Index c3) (Start c3) (End c3)])"
    unfolding download_attempts_0 d1 using e1 by (simp add: s2)
  show ?thesis unfolding s1 i1 i2 r1 r2 r3 by (simp add: c3)
qed


lemma attempts_no_body:
  assumes "no_body (net 0)" "no_body (net 1)" "no_body (net 2)"
  shows "download_attempts net chunkSize sz 0 c tr =
           (fst (Download c chunkSize sz NoResponse),
            tr @ [EvRangeGet (Index c) (Start (fst (Download c chunkSize sz NoResponse)))
                     (End (fst (Download c chunkSize sz NoResponse))), EvSleep 2,
                  EvRangeGet (Index c) (Start (fst (Download c chunkSize sz NoResponse)))
                     (End (fst (Download c chunkSize sz NoResponse))), EvSleep 2,
                  EvRangeGet (Index c) (Start (fst (Download c chunkSize sz NoResponse)))
                     (End (fst (Download c chunkSize sz NoResponse))), EvSleep 2])"
proof -
  have n1: "net (Suc 0) = net 1" and n2: "net (Suc (Suc 0)) = net 2"
    by (simp_all add: numeral_2_eq_2)
  have step: "no_body out \<Longrightarrow>
      \<exists>e. Download c' chunkSize sz out = (fst (Download c' chunkSize sz NoResponse), e) \<and> e \<noteq> None"
    for c' out
    by (cases out) (simp_all add: Download_def Let_def no_body_def)
  have idem: "fst (Download (fst (Download c chunkSize sz NoResponse)) chunkSize sz NoResponse)
                = fst (Download c chunkSize sz NoResponse)"
    by (simp add: Download_def Let_def)
  have ix: "Index (fst (Download c chunkSize sz NoResponse)) = Index c"
    by (simp add: Download_def Let_def)
  define c1 where "c1 = fst (Download c chunkSize sz NoResponse)"
  obtain e1 where d1: "Download c chunkSize sz (net 0) = (c1, e1)" "e1 \<noteq> None"
    using step [OF assms(1), of c] by (auto simp: c1_def)
  obtain e2 where d2: "Download c1 chunkSize sz (net 1) = (c1, e2)" "e2 \<noteq> None"
    using step [OF assms(2), of c1] idem by (auto simp: c1_def)
  obtain e3 where d3: "Download c1 chunkSize sz (net 2) = (c1, e3)" "e3 \<noteq> None"
    using step [OF assms(3), of c1] idem by (auto simp: c1_def)
  have s3: "download_attempts net chunkSize sz (Suc (Suc 0)) c1 tr' =
              (c1, tr' @ [EvRangeGet (Index c1) (Start c1) (End c1), EvSleep 2])" for tr'
    unfolding download_attempts_2 n2 d3(1) using d3(2) by simp
  have s2: "download_attempts net chunkSize sz (Suc 0) c1 tr' =
              (c1, tr' @ [EvRangeGet (Index c1) (Start c1) (End c1), EvSleep 2,
                          EvRangeGet (Index c1) (Start c1) (End c1), EvSleep 2])" for tr'
    unfolding download_attempts_1 n1 d2(1) using d2(2) by (simp add: s3)
  have s1: "download_attempts net chunkSize sz 0 c tr =
              (c1, tr @ [EvRangeGet (Index c1) (Start c1) (End c1), EvSleep 2,
                         EvRangeGet (Index c1) (Start c1) (End c1), EvSleep 2,
                         EvRangeGet (Index c1) (Start c1) (End c1), EvSleep 2])"
    unfolding download_attempts_0 d1(1) using d1(2) by (simp add: s2)
  show ?thesis unfolding s1 using ix by (simp add: c1_def)
qed

lemma Download_NoResponse_Data: "Data (fst (Download c chunkSize sz NoResponse)) = Data c"
  by (simp add: Download_def Let_def)

lemma DownloadChunk_missed_fatal:
  assumes "no_body (range_result w i 0)" "no_body (range_result w i 1)"
    "no_body (range_result w i 2)"
  shows "fst (DownloadChunk w st i) = Inl (Fatal ''Failed to write to file: '') \<and>
         MissedChunks (Metadata (info (snd (DownloadChunk w st i)))) =
           MissedChunks (Metadata (info st)) @
             [fst (Download \<lparr>Data = None, Start = 0, End = 0, Index = i\<rparr>
                     (ChunkSize (info st)) (Size (info st)) NoResponse)] \<and>
         files (snd (DownloadChunk w st i)) = files st \<and>
         trace (snd (DownloadChunk w st i)) =
           trace st @
             [EvRangeGet i
                (Start (fst (Download \<lparr>Data = None, Start = 0, End = 0, Index = i\<rparr>
                     (ChunkSize (info st)) (Size (info st)) NoResponse)))
                (End (fst (Download \<lparr>Data = None, Start = 0, End = 0, Index = i\<rparr>
                     (ChunkSize (info st)) (Size (info st)) NoResponse))), EvSleep 2,
              EvRangeGet i
                (Start (fst (Download \<lparr>Data = None, Start = 0, End = 0, Index = i\<rparr>
                     (ChunkSize (info st)) (Size (info st)) NoResponse)))
                (End (fst (Download \<lparr>Data = None, Start = 0, End = 0, Index = i\<rparr>
                     (ChunkSize (info st)) (Size (info st)) NoResponse))), EvSleep 2,
              EvRangeGet i
                (Start (fst (Download \<lparr>Data = None, Start = 0, End = 0, Index = i\<rparr>
                     (ChunkSize (info st)) (Size (info st)) NoResponse)))
                (End (fst (Download \<lparr>Data = None, Start = 0, End = 0, Index = i\<rparr>
                     (ChunkSize (info st)) (Size (info st)) NoResponse))), EvSleep 2]"
  unfolding DownloadChunk_def attempts_no_body [OF assms]
  by (simp add: Let_def len_bytes_def WriteToFile_def Download_NoResponse_Data)

lemma download_attempts_chunk_only:
  "fst (download_attempts net chunkSize sz 0 c tr) = fst (download_attempts net chunkSize sz 0 c [])"
  by (simp add: download_attempts_0 download_attempts_1 download_attempts_2 split: prod.splits)

lemma WriteToFile_error_only:
  "fst (WriteToFile c f fs wo) = None \<longleftrightarrow> fst (WriteToFile c f Map.empty wo) = None"
  by (simp add: WriteToFile_def Let_def split: option.splits)

lemma DownloadChunk_returns_iff:
  "fst (DownloadChunk w st i) = Inr () \<longleftrightarrow> chunk_completes w (info st) i"
proof -
  obtain c tr where a: "download_attempts (range_result w i) (ChunkSize (info st)) (Size (info st)) 0
             \<lparr>Data = None, Start = 0, End = 0, Index = i\<rparr> (trace st) = (c, tr)"
    by (cases "download_attempts (range_result w i) (ChunkSize (info st)) (Size (info st)) 0
             \<lparr>Data = None, Start = 0, End = 0, Index = i\<rparr> (trace st)")
  obtain c' tr' where b: "download_attempts (range_result w i) (ChunkSize (info st)) (Size (info st)) 0
             \<lparr>Data = None, Start = 0, End = 0, Index = i\<rparr> [] = (c', tr')"
    by (cases "download_attempts (range_result w i) (ChunkSize (info st)) (Size (info st)) 0
             \<lparr>Data = None, Start = 0, End = 0, Index = i\<rparr> []")
  have cc: "c' = c"
    using download_attempts_chunk_only [of "range_result w i" "ChunkSize (info st)" "Size (info st)"
        "\<lparr>Data = None, Start = 0, End = 0, Index = i\<rparr>" "trace st"] a b by simp
  show ?thesis
    unfolding DownloadChunk_def chunk_completes_def a b cc
    using WriteToFile_error_only [of c "File (info st)" "files st" "write_result w i"]
    by (auto simp: Let_def split: prod.splits option.splits)
qed

lemma DownloadChunk_info:
  "File (info (snd (DownloadChunk w st i))) = File (info st) \<and>
   Size (info (snd (DownloadChunk w st i))) = Size (info st) \<and>
   ChunkSize (info (snd (DownloadChunk w st i))) = ChunkSize (info st)"
  by (simp add: DownloadChunk_def Let_def split: prod.splits option.splits)

lemma chunk_completes_cong:
  "File fi = File fi' \<Longrightarrow> Size fi = Size fi' \<Longrightarrow> ChunkSize fi = ChunkSize fi' \<Longrightarrow>
     chunk_completes w fi i = chunk_completes w fi' i"
  by (simp add: chunk_completes_def)

lemma run_tasks_returns_iff:
  "fst (run_tasks (map (\<lambda>i. \<lparr>ExecFunc = Some (\<lambda>s. DownloadChunk w s (int i)), ID = int i + 1\<rparr>) js) st) = Inr ()
     \<longleftrightarrow> (\<forall>j\<in>set js. chunk_completes w (info st) (int j))"
proof (induction js arbitrary: st)
  case Nil
  then show ?case by simp
next
  case (Cons j js)
  obtain r st' where d: "DownloadChunk w st (int j) = (r, st')" by (cases "DownloadChunk w st (int j)")
  show ?case
  proof (cases r)
    case (Inl e)
    then have "\<not> chunk_completes w (info st) (int j)"
      using DownloadChunk_returns_iff [of w st "int j"] d by simp
    then show ?thesis using d Inl by (simp add: Process_def)
  next
    case (Inr u)
    then have c: "chunk_completes w (info st) (int j)"
      using DownloadChunk_returns_iff [of w st "int j"] d by simp
    have "\<And>k. chunk_completes w (info st') k = chunk_completes w (info st) k"
      using DownloadChunk_info [of w st "int j"] d by (intro chunk_completes_cong) simp_all
    then show ?thesis using d Inr c Cons.IH [of st'] by (simp add: Process_def)
  qed
qed


lemma DownloadChunk_exit:
  "fst (DownloadChunk w st i) = Inr () \<or>
   fst (DownloadChunk w st i) = Inl (Fatal ''Failed to write to file: '')"
  by (simp add: DownloadChunk_def Let_def split: prod.splits option.splits)

lemma run_tasks_exit:
  "fst (run_tasks (map (\<lambda>i. \<lparr>ExecFunc = Some (\<lambda>s. DownloadChunk w s (int i)), ID = int i + 1\<rparr>) js) st) = Inr () \<or>
   fst (run_tasks (map (\<lambda>i. \<lparr>ExecFunc = Some (\<lambda>s. DownloadChunk w s (int i)), ID = int i + 1\<rparr>) js) st)
     = Inl (Fatal ''Failed to write to file: '')"
proof (induction js arbitrary: st)
  case Nil
  then show ?case by simp
next
  case (Cons j js)
  obtain r st' where d: "DownloadChunk w st (int j) = (r, st')" by (cases "DownloadChunk w st (int j)")
  show ?case
  proof (cases r)
    case (Inl e)
    then show ?thesis using d DownloadChunk_exit [of w st "int j"] by (simp add: Process_def)
  next
    case (Inr u)
    then show ?thesis using d Cons.IH [of st'] by (simp add: Process_def)
  qed
qed

lemma all_below_nat: "0 \<le> n \<Longrightarrow> (\<forall>j\<in>set [0..<nat n]. P (int j)) \<longleftrightarrow> (\<forall>i. 0 \<le> i \<and> i < n \<longrightarrow> P i)"
proof
  assume n: "0 \<le> n" and a: "\<forall>j\<in>set [0..<nat n]. P (int j)"
  show "\<forall>i. 0 \<le> i \<and> i < n \<longrightarrow> P i"
  proof (intro allI impI)
    fix i assume i: "0 \<le> i \<and> i < n"
    then have "nat i \<in> set [0..<nat n]" by simp
    with a have "P (int (nat i))" by blast
    with i show "P i" by simp
  qed
next
  assume "0 \<le> n" and "\<forall>i. 0 \<le> i \<and> i < n \<longrightarrow> P i"
  then show "\<forall>j\<in>set [0..<nat n]. P (int j)" by auto
qed

lemma DownloadInChunks_first_missed:
  assumes n: "totalFileChunks (Size (info st)) (ChunkSize (info st)) = Some n" "0 < n"
    and cpu: "0 < numCPU w"
    and nb: "no_body (range_result w 0 0)" "no_body (range_result w 0 1)"
      "no_body (range_result w 0 2)"
  shows "DownloadInChunks w st =
           (Inl (Fatal ''Failed to write to file: ''), snd (DownloadChunk w st 0))"
proof -
  have u: "[0..<nat n] = 0 # [Suc 0..<nat n]" using n(2) by (simp add: upt_conv_Cons)
  obtain st' where d: "DownloadChunk w st 0 = (Inl (Fatal ''Failed to write to file: ''), st')"
    using DownloadChunk_missed_fatal [OF nb, of st] by (cases "DownloadChunk w st 0") simp
  show ?thesis
    using n cpu d by (simp add: DownloadInChunks_def Let_def Run_def u Process_def)
qed

lemma DownloadChunk_MissedChunks:
  "MissedChunks (Metadata (info (snd (DownloadChunk w st i)))) =
     (let c = fst (download_attempts (range_result w i) (ChunkSize (info st)) (Size (info st)) 0
                     \<lparr>Data = None, Start = 0, End = 0, Index = i\<rparr> (trace st))
      in if len_bytes (Data c) = 0 then MissedChunks (Metadata (info st)) @ [c]
         else MissedChunks (Metadata (info st)))"
  by (simp add: DownloadChunk_def Let_def split: prod.splits option.splits)

section \<open>The streaming loop and the run: basic facts\<close>





lemma stream_attempts_0:
  "stream_attempts w 0 k st =
     (case StreamBufInChunks (st\<lparr>trace := trace st @ [EvStreamGet]\<rparr>) (stream_result w k) of
        ((bytesWritten, err), st') \<Rightarrow>
          if err = None \<and> bytesWritten \<noteq> 0 then st'
          else stream_attempts w (Suc (Suc 0)) (Suc k) (st'\<lparr>trace := trace st' @ [EvSleep 2]\<rparr>))"
  by (subst stream_attempts.simps) (simp add: maxRetries_def Let_def split: prod.splits)





lemma downloadFile_after_probe:
  assumes "getFileInfo url (head_result w) (get_result w) = (Some fi, err)"
    "err = None \<or> err = Some ErrRangeNotSupported"
    "creatable w (GetFullPath fi outDir)"
  shows "downloadFile w fs url outDir mb =
           (let st1 = \<lparr>info = fi\<lparr>File := Some \<lparr>fname = GetFullPath fi outDir, cursor = 0\<rparr>\<rparr>,
                        files = fs(GetFullPath fi outDir \<mapsto> Bytes []), trace = []\<rparr>
            in if Size fi \<le> 0
               then (Inr (), save_missed w (stream_attempts w 0 0 st1) outDir)
               else if AcceptsRanges fi
               then (case DownloadInChunks w (st1\<lparr>info := (info st1)\<lparr>ChunkSize := mb * 2 ^ 20\<rparr>\<rparr>) of
                       (Inl e, st2) \<Rightarrow> (Inl e, st2)
                     | (Inr n, st2) \<Rightarrow> (Inr (), save_missed w st2 outDir))
               else (Inr (), save_missed w st1 outDir))"
  using assms by (auto simp: downloadFile_def CreateFile_def Let_def)

lemma getFileInfo_example:
  "getFileInfo url (Responded (example_response len ranges)) gres =
     (let f0 = initial_FileInfo url;
          f = (case ParseInt len of
                 Some n \<Rightarrow> f0\<lparr>Size := n, Metadata := (Metadata f0)\<lparr>TotalSize := n\<rparr>\<rparr>
               | None \<Rightarrow> f0)
      in if ranges \<noteq> ''bytes'' then (Some (f\<lparr>AcceptsRanges := False\<rparr>), Some ErrRangeNotSupported)
         else (Some f, None))"
  by (simp add: getFileInfo_def probe_response_def example_response_def fill_FileInfo_def
        Let_def split: option.splits)

lemma ParseInt_empty: "ParseInt '''' = None"
  by (simp add: ParseInt_def)

lemma ParseInt_5: "ParseInt ''5'' = Some 5"
  by (simp add: ParseInt_def is_digit_def in_int64_def)


lemma GetFullPath_tmp: "Name f = ''download'' \<Longrightarrow> Ext f = '''' \<Longrightarrow> GetFullPath f ''/tmp'' = ''/tmp/download''"
  by (simp add: GetFullPath_def TrimSuffix_def)

section \<open>The codec: valid strings and base64\<close>

declare toValidUTF8.simps [simp del] ValidString.simps [simp del]

lemma toValidUTF8_valid: "ValidString s \<Longrightarrow> toValidUTF8 s = s"
proof (induction s rule: ValidString.induct)
  case (1 s)
  show ?case
  proof (cases "s = []")
    case True
    then show ?thesis by (simp add: toValidUTF8.simps)
  next
    case False
    from "1.prems" False have n: "utf8_len s \<noteq> 0" and v: "ValidString (drop (utf8_len s) s)"
      by (auto simp: ValidString.simps [of s] split: if_splits)
    from "1.IH" [OF False n v] have "toValidUTF8 (drop (utf8_len s) s) = drop (utf8_len s) s" .
    then show ?thesis using False n by (simp add: toValidUTF8.simps [of s])
  qed
qed

lemma index_of_nth: "distinct xs \<Longrightarrow> i < length xs \<Longrightarrow> index_of (xs ! i) xs = Some i"
proof (induction xs arbitrary: i)
  case Nil
  then show ?case by simp
next
  case (Cons x xs)
  show ?case
  proof (cases i)
    case 0
    then show ?thesis by simp
  next
    case (Suc j)
    with Cons.prems have "xs ! j \<noteq> x" "j < length xs" "distinct xs" by auto
    with Cons.IH [of j] Suc show ?thesis by simp
  qed
qed

lemma b64_alphabet_facts:
  "distinct b64_alphabet" "length b64_alphabet = 64"
  "CHR ''='' \<notin> set b64_alphabet"
  "CHR 0x0D \<notin> set b64_alphabet" "CHR 0x0A \<notin> set b64_alphabet"
  by (simp_all add: b64_alphabet_def)

lemma b64_char_in: "b64_char d \<in> set b64_alphabet"
  unfolding b64_char_def by (rule nth_mem) (simp add: b64_alphabet_facts)

lemma b64_value_char: "b64_value (b64_char d) = Some (d mod 64)"
  unfolding b64_value_def b64_char_def
  by (rule index_of_nth) (simp_all add: b64_alphabet_facts)

lemma b64_char_not_pad: "b64_char d \<noteq> CHR ''=''"
  using b64_char_in [of d] b64_alphabet_facts(3) by metis

lemma regroup3:
  fixes n :: nat
  assumes "n < 16777216"
  shows "(((n div 262144) mod 64 * 64 + (n div 4096) mod 64) * 64 + (n div 64) mod 64) * 64 + n mod 64 = n"
proof -
  have a: "n div 4096 = (n div 64) div 64" and b: "n div 262144 = (n div 4096) div 64"
    by (simp_all add: div_mult2_eq [symmetric])
  have c: "(n div 262144) mod 64 = n div 262144" using assms by simp
  have "(n div 262144 * 64 + (n div 4096) mod 64) = n div 4096"
    unfolding b by (rule div_mult_mod_eq)
  moreover have "(n div 4096 * 64 + (n div 64) mod 64) = n div 64"
    unfolding a by (rule div_mult_mod_eq)
  moreover have "n div 64 * 64 + n mod 64 = n" by (rule div_mult_mod_eq)
  ultimately show ?thesis unfolding c by simp
qed

lemma char_of_low: "char_of ((k :: nat) * 256 + of_char c) = c"
proof -
  have "((k :: nat) * 256 + of_char c) mod 256 = (of_char c :: nat)" by simp
  then have "char_of (((k :: nat) * 256 + of_char c) mod 256) = c" by simp
  then show ?thesis by (simp only: char_of_mod_256)
qed

lemma bytes3:
  fixes n :: nat
  assumes "n = of_char a * 65536 + of_char b * 256 + of_char c"
  shows "n < 16777216" "char_of (n div 65536) = a" "char_of (n div 256) = b" "char_of n = c"
proof -
  have la: "of_char a < (256 :: nat)" and lb: "of_char b < (256 :: nat)"
    and lc: "of_char c < (256 :: nat)" by simp_all
  show "n < 16777216" unfolding assms using la lb lc by linarith
  have r: "of_char b * 256 + of_char c < (65536 :: nat)" using lb lc by linarith
  have "n = of_char a * 65536 + (of_char b * 256 + of_char c)" unfolding assms by simp
  then have "n div 65536 = of_char a" using r by simp
  then show "char_of (n div 65536) = a" by simp
  have "n div 256 = ((of_char a * 256 + of_char b) * 256 + of_char c) div 256"
    unfolding assms by simp
  also have "\<dots> = of_char a * 256 + of_char b" using lc by (simp only: div_mult_self3 div_less add_0_right) 
  finally have "n div 256 = of_char a * 256 + of_char b" .
  then show "char_of (n div 256) = b" using char_of_low [of "of_char a" b] by simp
  have "n = (of_char a * 256 + of_char b) * 256 + of_char c" unfolding assms by simp
  then show "char_of n = c" using char_of_low [of "of_char a * 256 + of_char b" c] by simp
qed

lemma regroup1:
  fixes x :: nat
  assumes "x < 256"
  shows "(x div 4 mod 64 * 64 + x mod 4 * 16 mod 64) div 16 = x"
proof -
  have a: "x div 4 mod 64 = x div 4" using assms by simp
  have "x mod 4 < 4" by simp
  then have "x mod 4 * 16 < 64" by linarith
  then have b: "x mod 4 * 16 mod 64 = x mod 4 * 16" by simp
  have e: "x div 4 * 4 + x mod 4 = x" by (rule div_mult_mod_eq)
  then have "x div 4 * 64 + x mod 4 * 16 = 16 * x" by linarith
  then show ?thesis unfolding a b by simp
qed

lemma regroup2:
  fixes n :: nat
  assumes "n < 65536"
  shows "(n div 1024 mod 64 * 64 + n div 16 mod 64) * 64 + n mod 16 * 4 mod 64 = n * 4"
proof -
  have a: "n div 1024 mod 64 = n div 1024" using assms by simp
  have "n mod 16 < 16" by simp
  then have "n mod 16 * 4 < 64" by linarith
  then have b: "n mod 16 * 4 mod 64 = n mod 16 * 4" by simp
  have c: "n div 1024 = (n div 16) div 64" by (simp add: div_mult2_eq [symmetric])
  have d: "n div 1024 * 64 + n div 16 mod 64 = n div 16" unfolding c by (rule div_mult_mod_eq)
  have e: "n div 16 * 16 + n mod 16 = n" by (rule div_mult_mod_eq)
  then have "n div 16 * 64 + n mod 16 * 4 = n * 4" by linarith
  then show ?thesis unfolding a b d by simp
qed

lemma b64_groups_enc3:
  assumes "b64_groups t = Some r"
  shows "b64_groups ([b64_char (n div 262144), b64_char (n div 4096), b64_char (n div 64), b64_char n] @ t)
           = (if n < 16777216 then Some ([char_of (n div 65536), char_of (n div 256), char_of n] @ r)
              else b64_groups ([b64_char (n div 262144), b64_char (n div 4096), b64_char (n div 64), b64_char n] @ t))"
proof (cases "n < 16777216")
  case False
  then show ?thesis by simp
next
  case True
  note g = regroup3 [OF True]
  show ?thesis
  proof (cases "t = []")
    case e: True
    then have "r = []" using assms by simp
    then show ?thesis using True e g
      by (simp add: b64_final_def b64_value_char b64_char_not_pad)
  next
    case ne: False
    then show ?thesis using True g assms
      by (simp add: b64_value_char)
  qed
qed

lemma b64_char_not_newline: "b64_char d \<noteq> CHR 0x0D" "b64_char d \<noteq> CHR 0x0A"
  using b64_char_in [of d] b64_alphabet_facts(4,5) by metis+

lemma b64encode_chars:
  "\<forall>ch\<in>set (b64encode d). ch \<noteq> CHR 0x0D \<and> ch \<noteq> CHR 0x0A"
  by (induction d rule: b64encode.induct)
     (simp_all add: Let_def b64_char_not_newline)

lemma b64_groups_encode: "b64_groups (b64encode d) = Some d"
proof (induction d rule: b64encode.induct)
  case 1
  then show ?case by simp
next
  case (2 a)
  have v: "(of_char a div 4 mod 64 * 64 + of_char a mod 4 * 16 mod 64) div 16 = (of_char a :: nat)"
    by (rule regroup1) simp
  have "b64_final (b64_char (of_char a div 4)) (b64_char (of_char a mod 4 * 16)) CHR ''='' CHR ''=''
          = Some [a]"
    by (simp only: b64_final_def b64_value_char prod.case option.case simp_thms if_True v
          char_of_char)
  then show ?case by (simp add: Let_def)
next
  case (3 a b)
  define n :: nat where "n = of_char a * 256 + of_char b"
  have la: "of_char a < (256 :: nat)" and lb: "of_char b < (256 :: nat)" by simp_all
  have n: "n < 65536" unfolding n_def using la lb by linarith
  note v = regroup2 [OF n]
  have "n * 4 div 1024 = n div 256" by simp
  also have "\<dots> = of_char a" unfolding n_def using lb by simp
  finally have b1: "char_of (n * 4 div 1024) = a" by simp
  have "n * 4 div 4 = n" by simp
  then have b2: "char_of (n * 4 div 4) = b"
    unfolding n_def using char_of_low [of "of_char a" b] by (simp only:)
  have "b64_groups [b64_char (n div 1024), b64_char (n div 16), b64_char (n mod 16 * 4), CHR ''='']
          = Some [a, b]"
    by (simp only: b64_groups.simps b64_final_def b64_value_char b64_char_not_pad prod.case
          option.case simp_thms if_True if_False v b1 b2)
  then show ?case
    unfolding b64encode.simps Let_def n_def [symmetric] .
next
  case (4 a b c rest)
  define n :: nat where "n = of_char a * 65536 + of_char b * 256 + of_char c"
  note b = bytes3 [OF n_def]
  have ih: "b64_groups (b64encode rest) = Some rest" using "4.IH" by blast
  have "b64_groups ([b64_char (n div 262144), b64_char (n div 4096), b64_char (n div 64),
                     b64_char n] @ b64encode rest) = Some ([a, b, c] @ rest)"
    using b64_groups_enc3 [OF ih, of n] b by (simp only: if_True)
  then show ?case
    unfolding b64encode.simps Let_def n_def [symmetric] by simp
qed

lemma b64decode_encode: "b64decode (b64encode d) = Some d"
proof -
  have "filter (\<lambda>c. c \<noteq> CHR 0x0D \<and> c \<noteq> CHR 0x0A) (b64encode d) = b64encode d"
    using b64encode_chars [of d] by (simp add: filter_id_conv)
  then show ?thesis by (simp add: b64decode_def b64_groups_encode)
qed

section \<open>The codec: decoding what the encoder wrote\<close>

lemma fold_key_ascii:
  "\<forall>c\<in>set k. (of_char c :: nat) < 128 \<Longrightarrow> fold_key k = map ascii_lower k"
  by (induction k) simp_all

lemma key_is_ascii:
  "\<forall>c\<in>set k. (of_char c :: nat) < 128 \<Longrightarrow> key_is k name \<longleftrightarrow> map ascii_lower k = map ascii_lower name"
  by (simp add: key_is_def fold_key_ascii)

lemma keys_Chunk:
  "key_is ''Data'' ''Data''" "\<not> key_is ''Start'' ''Data''" "\<not> key_is ''End'' ''Data''"
  "\<not> key_is ''Index'' ''Data''"
  "key_is ''Start'' ''Start''" "\<not> key_is ''End'' ''Start''" "\<not> key_is ''Index'' ''Start''"
  "key_is ''End'' ''End''" "\<not> key_is ''Index'' ''End''"
  "key_is ''Index'' ''Index''"
  by (simp_all add: key_is_ascii ascii_lower_def)

lemma keys_FileMetadata:
  "key_is ''url'' ''url''" "\<not> key_is ''missed_chunks'' ''url''" "\<not> key_is ''total_size'' ''url''"
  "\<not> key_is ''downloaded_size'' ''url''"
  "key_is ''missed_chunks'' ''missed_chunks''" "\<not> key_is ''total_size'' ''missed_chunks''"
  "\<not> key_is ''downloaded_size'' ''missed_chunks''"
  "key_is ''total_size'' ''total_size''" "\<not> key_is ''downloaded_size'' ''total_size''"
  "key_is ''downloaded_size'' ''downloaded_size''"
  by (simp_all add: key_is_ascii ascii_lower_def)

lemma unmarshal_marshal_Chunk:
  assumes "in_int64 (Start c)" "in_int64 (End c)" "in_int64 (Index c)"
  shows "unmarshal_Chunk (marshal_Chunk c) = Some c"
  using assms
  by (cases "Data c")
     (simp_all add: unmarshal_Chunk_def marshal_Chunk_def keys_Chunk as_bytes_def as_int64_def
        b64decode_encode)

lemma all_some_Chunks:
  assumes "\<forall>c\<in>set cs. in_int64 (Start c) \<and> in_int64 (End c) \<and> in_int64 (Index c)"
  shows "all_some (map (unmarshal_Chunk \<circ> marshal_Chunk) cs) = Some cs"
  using assms by (induction cs) (simp_all add: unmarshal_marshal_Chunk)

lemma unmarshal_marshal_FileMetadata:
  assumes "in_int64 (TotalSize m)" "in_int64 (DownloadedSize m)"
    "\<forall>c\<in>set (MissedChunks m). in_int64 (Start c) \<and> in_int64 (End c) \<and> in_int64 (Index c)"
  shows "unmarshal_FileMetadata (marshal_FileMetadata m) = Some (m\<lparr>URL := toValidUTF8 (URL m)\<rparr>)"
  using assms
  by (simp add: unmarshal_FileMetadata_def marshal_FileMetadata_def keys_FileMetadata
        as_string_def as_Chunks_def as_int64_def all_some_Chunks)

lemma utf8_len_ascii: "(of_char c :: nat) < 128 \<Longrightarrow> utf8_len (c # cs) = 1"
  by (simp add: utf8_len_def byte_in_def)

lemma ValidString_ascii: "\<forall>c\<in>set s. (of_char c :: nat) < 128 \<Longrightarrow> ValidString s"
proof (induction s)
  case Nil
  then show ?case by (simp add: ValidString.simps)
next
  case (Cons c cs)
  then have "utf8_len (c # cs) = 1" by (simp add: utf8_len_ascii)
  then show ?case using Cons by (simp add: ValidString.simps [of "c # cs"])
qed

section \<open>The byte ranges of the chunks\<close>











section \<open>What DownloadInChunks returns\<close>

text \<open>
  Claim C10, amended. \<open>DownloadInChunks\<close> never returns a value other than 0: what
  it returns is \<open>len(chunks) - totalFileChunks\<close>, and \<open>chunks\<close> has
  \<open>totalFileChunks\<close> slots. It does return, with 0, exactly when the chunk count is
  defined and not negative, the pool has a worker for a non-empty task list, and every
  chunk gets past its write. With a negative chunk count \<^verbatim>\<open>make\<close> panics, and a
  chunk whose write fails ends the process in \<^verbatim>\<open>log.Fatal\<close>. The claim as stated, that
  it returns 0 for every file size and chunk size, fails in these two ways: the
  counterexample below has one input for each.
\<close>

theorem DownloadInChunks_returns_zero:
  "(\<forall>v. fst (DownloadInChunks w st) = Inr v \<longrightarrow> v = 0) \<and>
   (fst (DownloadInChunks w st) = Inr 0 \<longleftrightarrow>
      (\<exists>n. totalFileChunks (Size (info st)) (ChunkSize (info st)) = Some n \<and> 0 \<le> n \<and>
           (n = 0 \<or> 0 < numCPU w) \<and>
           (\<forall>i. 0 \<le> i \<and> i < n \<longrightarrow> chunk_completes w (info st) i))) \<and>
   (\<forall>n. totalFileChunks (Size (info st)) (ChunkSize (info st)) = Some n \<and> n < 0 \<longrightarrow>
        fst (DownloadInChunks w st) = Inl (GoPanic ''makeslice: len out of range'')) \<and>
   (\<forall>n i. totalFileChunks (Size (info st)) (ChunkSize (info st)) = Some n \<and> 0 < numCPU w \<and>
          0 \<le> i \<and> i < n \<and> \<not> chunk_completes w (info st) i \<longrightarrow>
        fst (DownloadInChunks w st) = Inl (Fatal ''Failed to write to file: ''))"
proof (cases "totalFileChunks (Size (info st)) (ChunkSize (info st))")
  case None
  then show ?thesis by (simp add: DownloadInChunks_def)
next
  case (Some n)
  show ?thesis
  proof (cases "n < 0")
    case True
    then show ?thesis using Some by (simp add: DownloadInChunks_def)
  next
    case False
    then have n0: "0 \<le> n" by simp
    let ?ts = "map (\<lambda>i. \<lparr>ExecFunc = Some (\<lambda>s. DownloadChunk w s (int i)), ID = int i + 1\<rparr>) [0..<nat n]"
    let ?wp = "\<lparr>Tasks = ?ts, Concurrency = min (int (length ?ts)) (numCPU w)\<rparr>"
    have D: "DownloadInChunks w st =
               (case Run ?wp st of
                  (Inl e, st') \<Rightarrow> (Inl e, st')
                | (Inr u, st') \<Rightarrow> (Inr (int (length (replicate (nat n) (None :: Chunk option))) - n), st'))"
      using Some False by (simp add: DownloadInChunks_def Let_def)
    have len: "int (length (replicate (nat n) (None :: Chunk option))) - n = 0"
      using n0 by simp
    have all: "fst (run_tasks ?ts st) = Inr () \<longleftrightarrow> (\<forall>i. 0 \<le> i \<and> i < n \<longrightarrow> chunk_completes w (info st) i)"
      unfolding run_tasks_returns_iff using all_below_nat [OF n0] by simp
    show ?thesis
    proof (cases "n = 0")
      case True
      then show ?thesis using Some D by (auto simp: Run_def)
    next
      case nz: False
      then have ne: "?ts \<noteq> []" and pos: "0 < n" using n0 by simp_all
      show ?thesis
      proof (cases "0 < numCPU w")
        case cpu: False
        then have "Run ?wp st = (Inl (Fatal ''all goroutines are asleep - deadlock!''), st)"
          using ne by (simp add: Run_def)
        then show ?thesis using Some D nz cpu n0 by simp
      next
        case cpu: True
        then have R: "Run ?wp st = run_tasks ?ts st" using ne pos by (simp add: Run_def)
        obtain r st' where rt: "run_tasks ?ts st = (r, st')" by (cases "run_tasks ?ts st")
        show ?thesis
        proof (cases r)
          case (Inr u)
          then have "\<forall>i. 0 \<le> i \<and> i < n \<longrightarrow> chunk_completes w (info st) i"
            using all rt by simp
          then show ?thesis using Some D R rt Inr len n0 cpu by simp
        next
          case (Inl e)
          then have e: "e = Fatal ''Failed to write to file: ''"
            using run_tasks_exit [of w "[0..<nat n]" st] rt by simp
          have "\<not> (\<forall>i. 0 \<le> i \<and> i < n \<longrightarrow> chunk_completes w (info st) i)"
            using all rt Inl by simp
          then show ?thesis using Some D R rt Inl e by auto
        qed
      qed
    qed
  qed
qed

theorem DownloadInChunks_returns_zero_witness:
  "fst (DownloadInChunks
          (example_world (example_response ''10'' ''bytes'') (\<lambda>k. NoResponse)
             (\<lambda>i r. Body 206 ''abcd'' False))
          (example_proc 10 4)) = Inr 0"
proof -
  let ?w = "example_world (example_response ''10'' ''bytes'') (\<lambda>k. NoResponse)
             (\<lambda>i r. Body 206 ''abcd'' False)"
  have tc: "totalFileChunks (Size (info (example_proc 10 4))) (ChunkSize (info (example_proc 10 4))) = Some 3"
    by (simp add: example_proc_def totalFileChunks_def)
  have c0: "chunk_completes ?w (info (example_proc 10 4)) 0"
    by (simp add: chunk_completes_def example_proc_def example_world_def download_attempts_0
            Download_def WriteToFile_def wrap64_def Let_def)
  have c1: "chunk_completes ?w (info (example_proc 10 4)) 1"
    by (simp add: chunk_completes_def example_proc_def example_world_def download_attempts_0
            Download_def WriteToFile_def wrap64_def Let_def)
  have c2: "chunk_completes ?w (info (example_proc 10 4)) 2"
    by (simp add: chunk_completes_def example_proc_def example_world_def download_attempts_0
            Download_def WriteToFile_def wrap64_def Let_def)
  have cc: "chunk_completes ?w (info (example_proc 10 4)) i" if "0 \<le> i \<and> i < 3" for i
  proof -
    from that have "i = 0 \<or> i = 1 \<or> i = 2" by auto
    then show ?thesis using c0 c1 c2 by blast
  qed
  have "\<exists>n. totalFileChunks (Size (info (example_proc 10 4))) (ChunkSize (info (example_proc 10 4))) = Some n \<and>
          0 \<le> n \<and> (n = 0 \<or> 0 < numCPU ?w) \<and>
          (\<forall>i. 0 \<le> i \<and> i < n \<longrightarrow> chunk_completes ?w (info (example_proc 10 4)) i)"
    using tc cc by (simp add: example_world_def)
  then show ?thesis
    using DownloadInChunks_returns_zero [of ?w "example_proc 10 4"] by blast
qed

theorem DownloadInChunks_no_return_counterexample:
  "fst (DownloadInChunks
          (example_world (example_response ''1048577'' ''bytes'') (\<lambda>k. NoResponse)
             (\<lambda>i r. Body 206 ''abcd'' False))
          (example_proc 1048577 (- 1048576)))
     = Inl (GoPanic ''makeslice: len out of range'') \<and>
   fst (DownloadInChunks
          (example_world (example_response ''10'' ''bytes'') (\<lambda>k. NoResponse)
             (\<lambda>i r. Body 500 [] False))
          (example_proc 10 4))
     = Inl (Fatal ''Failed to write to file: '')"
proof
  show "fst (DownloadInChunks
          (example_world (example_response ''1048577'' ''bytes'') (\<lambda>k. NoResponse)
             (\<lambda>i r. Body 206 ''abcd'' False))
          (example_proc 1048577 (- 1048576)))
     = Inl (GoPanic ''makeslice: len out of range'')"
    by (simp add: DownloadInChunks_def example_proc_def totalFileChunks_def)
  have "totalFileChunks (Size (info (example_proc 10 4))) (ChunkSize (info (example_proc 10 4))) = Some 3"
    by (simp add: example_proc_def totalFileChunks_def)
  then show "fst (DownloadInChunks
          (example_world (example_response ''10'' ''bytes'') (\<lambda>k. NoResponse)
             (\<lambda>i r. Body 500 [] False))
          (example_proc 10 4))
     = Inl (Fatal ''Failed to write to file: '')"
    by (subst DownloadInChunks_first_missed [where n = 3])
       (simp_all add: example_world_def no_body_def)
qed

section \<open>A chunk that never arrives\<close>


section \<open>A chunk that arrives on the third attempt\<close>

text \<open>
  Claim C5, amended. When the first two calls of \<open>Download\<close> for a chunk fail
  and the third returns without error a body that is not empty, the retry loop of
  \<open>DownloadChunk\<close> ends with the chunk holding that body, \<open>DownloadChunk\<close> leaves
  \<open>MissedChunks\<close> as it was, and exactly three requests are made, with a pause of
  2 seconds after each of the two failed ones and none after the third. The claim as
  stated does not ask for a body that is not empty: a third call that returns without
  error an empty body ends the loop too, and the chunk is then recorded as missed
  (the counterexample below).
\<close>

theorem DownloadChunk_third_attempt:
  assumes "download_fails (range_result w i 0)" "download_fails (range_result w i 1)"
    "range_result w i 2 = Body status d False" "status < 400" "d \<noteq> []"
  shows "(\<exists>c tr. download_attempts (range_result w i) (ChunkSize (info st)) (Size (info st)) 0
                    \<lparr>Data = None, Start = 0, End = 0, Index = i\<rparr> (trace st) = (c, tr) \<and>
                 Index c = i \<and> Data c = Some d \<and> 0 < len_bytes (Data c)) \<and>
         MissedChunks (Metadata (info (snd (DownloadChunk w st i)))) =
           MissedChunks (Metadata (info st)) \<and>
         (\<exists>s e. trace (snd (DownloadChunk w st i)) =
                  trace st @ [EvRangeGet i s e, EvSleep 2, EvRangeGet i s e, EvSleep 2,
                              EvRangeGet i s e])"
proof -
  note a = attempts_third_success [OF assms(1-4), of "ChunkSize (info st)" "Size (info st)"
      "\<lparr>Data = None, Start = 0, End = 0, Index = i\<rparr>" "trace st"]
  have ix: "Index (fst (Download \<lparr>Data = None, Start = 0, End = 0, Index = i\<rparr>
              (ChunkSize (info st)) (Size (info st)) NoResponse)) = i"
    by (simp add: Download_def Let_def)
  show ?thesis
    unfolding DownloadChunk_def a using assms(5) ix
    by (simp add: Let_def len_bytes_def split: prod.splits option.splits)
qed

theorem DownloadChunk_third_attempt_witness:
  "MissedChunks (Metadata (info (snd (DownloadChunk
      (example_world (example_response ''10'' ''bytes'') (\<lambda>k. NoResponse)
         (\<lambda>i r. if r = 2 then Body 206 ''abcd'' False else NoResponse))
      (example_proc 10 4) 1)))) = []"
  using DownloadChunk_third_attempt [of
      "example_world (example_response ''10'' ''bytes'') (\<lambda>k. NoResponse)
         (\<lambda>i r. if r = 2 then Body 206 ''abcd'' False else NoResponse)"
      1 206 "''abcd''" "example_proc 10 4"]
  by (simp add: example_world_def download_fails_def example_proc_def initial_FileInfo_def)

theorem DownloadChunk_empty_body_counterexample:
  "\<not> download_fails (Body 206 [] False) \<and>
   download_fails NoResponse \<and>
   MissedChunks (Metadata (info (snd (DownloadChunk
      (example_world (example_response ''10'' ''bytes'') (\<lambda>k. NoResponse)
         (\<lambda>i r. if r = 2 then Body 206 [] False else NoResponse))
      (example_proc 10 4) 1))))
    = [\<lparr>Data = Some [], Start = 4, End = 7, Index = 1\<rparr>]"
proof -
  let ?w = "example_world (example_response ''10'' ''bytes'') (\<lambda>k. NoResponse)
         (\<lambda>i r. if r = 2 then Body 206 [] False else NoResponse)"
  have a: "download_attempts (range_result ?w 1) 4 10 0
             \<lparr>Data = None, Start = 0, End = 0, Index = 1\<rparr> [] =
           (\<lparr>Data = Some [], Start = 4, End = 7, Index = 1\<rparr>,
            [EvRangeGet 1 4 7, EvSleep 2, EvRangeGet 1 4 7, EvSleep 2, EvRangeGet 1 4 7])"
    by (simp add: download_attempts_0 download_attempts_1 download_attempts_2 example_world_def
          Download_def wrap64_def Let_def)
  show ?thesis
    by (simp add: download_fails_def DownloadChunk_MissedChunks example_proc_def
          initial_FileInfo_def a len_bytes_def Let_def)
qed

section \<open>The streaming path\<close>




section \<open>A known size without range support\<close>

text \<open>
  Claim C4, at a failing input. The server answers HEAD with status 200, a
  Content-Length of 5 and an Accept-Ranges header other than \<open>bytes\<close>, and would
  serve the 5 bytes to any GET. \<open>downloadFile\<close> ends normally without having sent a
  request for the body: the output file is created and stays empty. With the same
  server and no Content-Length header the body is streamed into the file.
\<close>

theorem known_size_without_ranges_downloads_nothing:
  "fst (downloadFile
          (example_world (example_response ''5'' ''none'')
             (\<lambda>k. Body 200 ''hello'' False) (\<lambda>i r. Body 206 ''hello'' False))
          Map.empty ''http://host/file'' ''/tmp'' 1) = Inr () \<and>
   trace (snd (downloadFile
          (example_world (example_response ''5'' ''none'')
             (\<lambda>k. Body 200 ''hello'' False) (\<lambda>i r. Body 206 ''hello'' False))
          Map.empty ''http://host/file'' ''/tmp'' 1)) = [] \<and>
   files (snd (downloadFile
          (example_world (example_response ''5'' ''none'')
             (\<lambda>k. Body 200 ''hello'' False) (\<lambda>i r. Body 206 ''hello'' False))
          Map.empty ''http://host/file'' ''/tmp'' 1)) ''/tmp/download'' = Some (Bytes []) \<and>
   trace (snd (downloadFile
          (example_world (example_response '''' ''none'')
             (\<lambda>k. Body 200 ''hello'' False) (\<lambda>i r. Body 206 ''hello'' False))
          Map.empty ''http://host/file'' ''/tmp'' 1)) = [EvStreamGet] \<and>
   files (snd (downloadFile
          (example_world (example_response '''' ''none'')
             (\<lambda>k. Body 200 ''hello'' False) (\<lambda>i r. Body 206 ''hello'' False))
          Map.empty ''http://host/file'' ''/tmp'' 1)) ''/tmp/download'' = Some (Bytes ''hello'')"
proof -
  let ?w = "example_world (example_response ''5'' ''none'')
             (\<lambda>k. Body 200 ''hello'' False) (\<lambda>i r. Body 206 ''hello'' False)"
  let ?fi = "(initial_FileInfo ''http://host/file'')
               \<lparr>Size := 5, Metadata := (Metadata (initial_FileInfo ''http://host/file''))\<lparr>TotalSize := 5\<rparr>,
                AcceptsRanges := False\<rparr>"
  have g: "getFileInfo ''http://host/file'' (head_result ?w) (get_result ?w)
             = (Some ?fi, Some ErrRangeNotSupported)"
    by (simp add: example_world_def getFileInfo_example ParseInt_5 Let_def)
  have p: "GetFullPath ?fi ''/tmp'' = ''/tmp/download''"
    by (rule GetFullPath_tmp) (simp_all add: initial_FileInfo_def)
  have cr: "creatable ?w (GetFullPath ?fi ''/tmp'')" by (simp add: example_world_def)
  have d: "downloadFile ?w Map.empty ''http://host/file'' ''/tmp'' 1 =
             (Inr (), \<lparr>info = ?fi\<lparr>File := Some \<lparr>fname = ''/tmp/download'', cursor = 0\<rparr>\<rparr>,
                        files = [''/tmp/download'' \<mapsto> Bytes []], trace = []\<rparr>)"
    unfolding downloadFile_after_probe [OF g disjI2 [OF refl] cr] Let_def p
    by (simp add: save_missed_def initial_FileInfo_def)
  let ?v = "example_world (example_response '''' ''none'')
             (\<lambda>k. Body 200 ''hello'' False) (\<lambda>i r. Body 206 ''hello'' False)"
  let ?fj = "(initial_FileInfo ''http://host/file'')\<lparr>AcceptsRanges := False\<rparr>"
  have g': "getFileInfo ''http://host/file'' (head_result ?v) (get_result ?v)
             = (Some ?fj, Some ErrRangeNotSupported)"
    by (simp add: example_world_def getFileInfo_example ParseInt_empty Let_def)
  have p': "GetFullPath ?fj ''/tmp'' = ''/tmp/download''"
    by (rule GetFullPath_tmp) (simp_all add: initial_FileInfo_def)
  have cr': "creatable ?v (GetFullPath ?fj ''/tmp'')" by (simp add: example_world_def)
  have d': "downloadFile ?v Map.empty ''http://host/file'' ''/tmp'' 1 =
             (Inr (), \<lparr>info = ?fj\<lparr>File := Some \<lparr>fname = ''/tmp/download'', cursor = 5\<rparr>\<rparr>,
                        files = [''/tmp/download'' \<mapsto> Bytes ''hello''], trace = [EvStreamGet]\<rparr>)"
    unfolding downloadFile_after_probe [OF g' disjI2 [OF refl] cr'] Let_def p'
    by (simp add: save_missed_def initial_FileInfo_def stream_attempts_0 StreamBufInChunks_def
          example_world_def write_at_def file_bytes_def)
  show ?thesis unfolding d d' by simp
qed

section \<open>Saving and reloading the metadata\<close>

text \<open>
  Claim C6, amended. For every metadata value whose URL is valid UTF-8 (the integer
  fields are 64-bit values, as their Go types say), \<open>SaveMetaData\<close> to a path that
  can be created followed by \<open>ReadMetaData\<close> of that path gives the value back: the
  URL, the sizes, and the missed chunks with their contents in their order. And
  \<open>ReadMetaData\<close> returns nil, as a value, when the file cannot be opened, when it
  holds no JSON text and when its document does not decode. The claim as stated, for
  every value, fails: the encoder replaces each byte of the URL that is not valid UTF-8
  by the replacement rune, so such a URL is not reproduced (the counterexample below).
\<close>

theorem metadata_round_trip:
  assumes "creatable w path" "ValidString (URL m)"
    "in_int64 (TotalSize m)" "in_int64 (DownloadedSize m)"
    "\<forall>c\<in>set (MissedChunks m). in_int64 (Start c) \<and> in_int64 (End c) \<and> in_int64 (Index c)"
  shows "fst (SaveMetaData w fs m path) = None \<and>
         ReadMetaData (snd (SaveMetaData w fs m path)) path = Some m \<and>
         (fs' path = None \<longrightarrow> ReadMetaData fs' path = None) \<and>
         (\<forall>b. fs' path = Some (Bytes b) \<longrightarrow> ReadMetaData fs' path = None) \<and>
         (\<forall>v. fs' path = Some (Document v) \<and> unmarshal_FileMetadata v = None \<longrightarrow>
              ReadMetaData fs' path = None)"
proof -
  have "unmarshal_FileMetadata (marshal_FileMetadata m) = Some (m\<lparr>URL := toValidUTF8 (URL m)\<rparr>)"
    using assms(3-5) by (rule unmarshal_marshal_FileMetadata)
  also have "\<dots> = Some m" using toValidUTF8_valid [OF assms(2)] by simp
  finally show ?thesis
    using assms(1) by (simp add: SaveMetaData_def ReadMetaData_def)
qed

theorem metadata_round_trip_witness:
  "ReadMetaData
     (snd (SaveMetaData (example_world (example_response ''3145728'' ''bytes'') (\<lambda>k. NoResponse)
                           (\<lambda>i r. NoResponse))
             Map.empty
             \<lparr>URL = ''http://host/file'',
              MissedChunks = [\<lparr>Data = None, Start = 0, End = 1048575, Index = 0\<rparr>,
                              \<lparr>Data = Some ''ab'', Start = 1048576, End = 2097151, Index = 1\<rparr>],
              TotalSize = 3145728, DownloadedSize = 0\<rparr>
             ''/tmp/download.meta.json''))
     ''/tmp/download.meta.json''
   = Some \<lparr>URL = ''http://host/file'',
            MissedChunks = [\<lparr>Data = None, Start = 0, End = 1048575, Index = 0\<rparr>,
                            \<lparr>Data = Some ''ab'', Start = 1048576, End = 2097151, Index = 1\<rparr>],
            TotalSize = 3145728, DownloadedSize = 0\<rparr>"
proof -
  have v: "ValidString ''http://host/file''" by (rule ValidString_ascii) simp
  show ?thesis
    using metadata_round_trip [of
      "example_world (example_response ''3145728'' ''bytes'') (\<lambda>k. NoResponse) (\<lambda>i r. NoResponse)"
      "''/tmp/download.meta.json''"
      "\<lparr>URL = ''http://host/file'',
        MissedChunks = [\<lparr>Data = None, Start = 0, End = 1048575, Index = 0\<rparr>,
                        \<lparr>Data = Some ''ab'', Start = 1048576, End = 2097151, Index = 1\<rparr>],
        TotalSize = 3145728, DownloadedSize = 0\<rparr>" Map.empty Map.empty] v
    by (simp add: example_world_def in_int64_def)
qed

theorem metadata_round_trip_counterexample:
  "ReadMetaData
     (snd (SaveMetaData (example_world (example_response ''10'' ''bytes'') (\<lambda>k. NoResponse)
                           (\<lambda>i r. NoResponse))
             Map.empty
             \<lparr>URL = [CHR 0xFF], MissedChunks = [], TotalSize = 10, DownloadedSize = 0\<rparr>
             ''/tmp/download.meta.json''))
     ''/tmp/download.meta.json''
   = Some \<lparr>URL = [CHR 0xEF, CHR 0xBF, CHR 0xBD], MissedChunks = [], TotalSize = 10,
            DownloadedSize = 0\<rparr> \<and>
   [CHR 0xEF, CHR 0xBF, CHR 0xBD] \<noteq> [CHR 0xFF]"
proof -
  have u: "utf8_len [CHR 0xFF] = 0" by (simp add: utf8_len_def byte_in_def)
  have t: "toValidUTF8 [CHR 0xFF] = [CHR 0xEF, CHR 0xBF, CHR 0xBD]"
    by (subst toValidUTF8.simps) (simp add: u replacement_rune_def toValidUTF8.simps [of "[]"])
  have "unmarshal_FileMetadata
          (marshal_FileMetadata \<lparr>URL = [CHR 0xFF], MissedChunks = [], TotalSize = 10, DownloadedSize = 0\<rparr>)
        = Some \<lparr>URL = [CHR 0xEF, CHR 0xBF, CHR 0xBD], MissedChunks = [], TotalSize = 10,
                 DownloadedSize = 0\<rparr>"
    using unmarshal_marshal_FileMetadata
      [of "\<lparr>URL = [CHR 0xFF], MissedChunks = [], TotalSize = 10, DownloadedSize = 0\<rparr>"]
    by (simp add: in_int64_def t)
  then show ?thesis
    by (simp add: SaveMetaData_def ReadMetaData_def example_world_def)
qed

end
